theory Spec2Isabelle
  imports Main
begin

section \<open>Strings and numbers of the host language\<close>

text \<open>
  Strings are byte lists (UTF-8). A template literal renders a non-negative integer in
  decimal, most significant digit first.
\<close>

definition digit_char :: "nat \<Rightarrow> char" where
  "digit_char d = char_of (48 + d)"

fun show_nat :: "nat \<Rightarrow> string" where
  "show_nat n = (if n < 10 then [digit_char n] else show_nat (n div 10) @ [digit_char (n mod 10)])"

declare show_nat.simps [simp del]

definition show_int :: "int \<Rightarrow> string" where
  "show_int i = (if i < 0 then CHR ''-'' # show_nat (nat (- i)) else show_nat (nat i))"

text \<open>
  \<open>encodeURIComponent\<close> keeps the letters, the digits and \<open>- _ . ! ~ * ' ( )\<close>, and writes
  every other byte of the UTF-8 form as \<open>%XX\<close> with upper-case hexadecimal digits.
\<close>

definition unreserved :: "char \<Rightarrow> bool" where
  "unreserved c =
     (let n = (of_char c :: nat) in
        (65 \<le> n \<and> n \<le> 90) \<or> (97 \<le> n \<and> n \<le> 122) \<or> (48 \<le> n \<and> n \<le> 57)
        \<or> c \<in> set ''-_.!~*'()'')"

definition hex_char :: "nat \<Rightarrow> char" where
  "hex_char d = (if d < 10 then char_of (48 + d) else char_of (55 + d))"

definition percent :: "char \<Rightarrow> string" where
  "percent c =
     (if unreserved c then [c]
      else [CHR ''%'', hex_char ((of_char c :: nat) div 16), hex_char ((of_char c :: nat) mod 16)])"

definition encodeURIComponent :: "string \<Rightarrow> string" where
  "encodeURIComponent s = concat (map percent s)"

section \<open>The remote service, the console and the process\<close>

datatype http_method = GET | PUT | POST | DELETE

text \<open>
  JSON values. \<open>JObj es\<close> holds the entries of an object as \<open>Object.entries\<close> lists
  them; a number is an integer here.
\<close>

datatype json =
    JNull
  | JBool bool
  | JNum int
  | JStr string
  | JArr "json list"
  | JObj "(string \<times> json) list"

record request =
  meth :: http_method
  url :: string
  headers :: "(string \<times> string) list"
  body :: "json option"


text \<open>
  A response as the programs read it: the status, the \<open>x-total-pages\<close> header when it is
  sent, and what \<open>response.json()\<close> resolves to, at the type the caller declares for it
  (an array of items); \<open>None\<close> when the body is not JSON and \<open>response.json()\<close> rejects.
  The text of an error body only goes into messages and is not carried.
  \<open>response.ok\<close> is true for the statuses 200 to 299.
\<close>

record 'a response =
  status :: nat
  x_total_pages :: "string option"
  json :: "'a list option"

definition ok :: "'a response \<Rightarrow> bool" where
  "ok r = (200 \<le> status r \<and> status r \<le> 299)"

text \<open>\<open>fetch\<close> either rejects (no response at all) or resolves to a response.\<close>

datatype 'a fetch_result = Rejected | Response "'a response"

text \<open>
  The service is opaque: a run is checked against the answers it gives. \<open>remote n req\<close>
  is the answer to the request \<open>req\<close> when it is call number \<open>n\<close> of the run, counting
  from 0 in the order in which the model lists the calls.
\<close>

type_synonym 'a remote = "nat \<Rightarrow> request \<Rightarrow> 'a fetch_result"

text \<open>
  Thrown values. \<open>Failed a s\<close> is the \<open>new Error("Failed to ...")\<close> that the programs throw
  on a response that is not ok, with the action and the status of the response.
\<close>

datatype action = ToFetch | ToDelete | ToCreate | ToUpdate

datatype error =
    NetworkError
  | SyntaxError
  | ReadError
  | Failed action nat

text \<open>The lines the programs print, one constructor for each message of the sources.\<close>

datatype line =
    WarningDeleteAll string
  | PressCtrlC
  | RemovingAllPipelines string
  | FetchingPipelinesPage nat
  | ErrorFetchingPipelines error
  | DeletedPipeline nat
  | ErrorDeletingPipeline nat error
  | NoMorePipelines
  | FoundPipelines nat nat
  | SuccessfullyDeletedPipelines nat string
  | ErrorRemovingPipelines error
  | FileNotFound string
  | ErrorSettingVariable string error
  | CreatedVariable string
  | UpdatedVariable string
  | MustContainObject
  | SettingVariables string
  | FailedToSetVariable string error
  | SkippingNonPrimitive string
  | SuccessfullySet nat string
  | ErrorProcessingFile error
  | FetchingVariables string
  | FetchingPage nat
  | FoundVariables nat string
  | ErrorFetchingVariables error
  | DeletingVariable string
  | DeletedVariable string
  | ErrorDeletingVariable string error
  | StartingRemoval string
  | NoVariablesFound string
  | PreparingToDelete nat
  | SummaryHeader
  | TotalProcessed nat
  | SuccessfullyDeleted nat
  | FailedToDelete nat
  | SomeNotDeleted
  | AllRemoved string
  | FatalError error

text \<open>
  What a run does, in order: network calls with their answers, timed pauses, and the lines
  written with \<open>console.log\<close>, \<open>console.warn\<close> and \<open>console.error\<close>.
\<close>

datatype 'a event =
    Call request "'a fetch_result"
  | Sleep nat
  | Log line
  | Warn line
  | Err line

record 'a world =
  issued :: nat
  trace :: "'a event list"

definition start :: "'a world" where
  "start = \<lparr>issued = 0, trace = []\<rparr>"

definition emit :: "'a event \<Rightarrow> 'a world \<Rightarrow> 'a world" where
  "emit e w = w\<lparr>trace := trace w @ [e]\<rparr>"

definition fetch :: "'a remote \<Rightarrow> request \<Rightarrow> 'a world \<Rightarrow> 'a fetch_result \<times> 'a world" where
  "fetch remote req w =
     (let ans = remote (issued w) req
      in (ans, \<lparr>issued = Suc (issued w), trace = trace w @ [Call req ans]\<rparr>))"

definition sleep :: "nat \<Rightarrow> 'a world \<Rightarrow> 'a world" where
  "sleep ms w = emit (Sleep ms) w"

text \<open>The end of a run: the exit status of the process and everything it did.\<close>

record 'a run =
  exit_code :: nat
  events :: "'a event list"

definition exit :: "nat \<Rightarrow> 'a world \<Rightarrow> 'a run" where
  "exit c w = \<lparr>exit_code = c, events = trace w\<rparr>"

text \<open>The settings, after validation: each program reads the ones it names.\<close>

record config =
  GITLAB_TOKEN :: string
  GITLAB_PROJECT_ID :: string
  GITLAB_API_URL :: string
  GITLAB_ENVIRONMENT :: string
  ENV_FILE_PATH :: string
  BATCH_SIZE :: nat
  DELAY_MS :: nat

section \<open>remove-pipelines\<close>

record pipeline =
  id :: nat

definition pipelines_request :: "config \<Rightarrow> nat \<Rightarrow> request" where
  "pipelines_request cfg page =
     \<lparr>meth = GET,
      url = GITLAB_API_URL cfg @ ''/projects/'' @ GITLAB_PROJECT_ID cfg @ ''/pipelines?per_page=''
            @ show_nat (BATCH_SIZE cfg) @ ''&page='' @ show_nat page,
      headers = [(''PRIVATE-TOKEN'', GITLAB_TOKEN cfg)],
      body = None\<rparr>"

definition fetchPipelines ::
  "config \<Rightarrow> pipeline remote \<Rightarrow> nat \<Rightarrow> pipeline world \<Rightarrow> (error + pipeline list) \<times> pipeline world" where
  "fetchPipelines cfg remote page w =
     (case fetch remote (pipelines_request cfg page) w of (ans, w1) \<Rightarrow>
        (case (case ans of
                 Rejected \<Rightarrow> Inl NetworkError
               | Response r \<Rightarrow>
                   if \<not> ok r then (case json r of None \<Rightarrow> Inl SyntaxError
                                               | Some _ \<Rightarrow> Inl (Failed ToFetch (status r)))
                   else (case json r of None \<Rightarrow> Inl SyntaxError | Some ps \<Rightarrow> Inr ps))
         of Inl e \<Rightarrow> (Inl e, emit (Err (ErrorFetchingPipelines e)) w1)
          | Inr ps \<Rightarrow> (Inr ps, w1)))"

definition pipeline_request :: "config \<Rightarrow> nat \<Rightarrow> request" where
  "pipeline_request cfg pipelineId =
     \<lparr>meth = DELETE,
      url = GITLAB_API_URL cfg @ ''/projects/'' @ GITLAB_PROJECT_ID cfg @ ''/pipelines/''
            @ show_nat pipelineId,
      headers = [(''PRIVATE-TOKEN'', GITLAB_TOKEN cfg)],
      body = None\<rparr>"

definition deletePipeline ::
  "config \<Rightarrow> pipeline remote \<Rightarrow> nat \<Rightarrow> pipeline world \<Rightarrow> (error + unit) \<times> pipeline world" where
  "deletePipeline cfg remote pipelineId w =
     (case fetch remote (pipeline_request cfg pipelineId) w of (ans, w1) \<Rightarrow>
        (case (case ans of
                 Rejected \<Rightarrow> Inl NetworkError
               | Response r \<Rightarrow>
                   if \<not> ok r then (case json r of None \<Rightarrow> Inl SyntaxError
                                               | Some _ \<Rightarrow> Inl (Failed ToDelete (status r)))
                   else Inr ())
         of Inl e \<Rightarrow> (Inl e, emit (Err (ErrorDeletingPipeline pipelineId e)) w1)
          | Inr u \<Rightarrow> (Inr u, emit (Log (DeletedPipeline pipelineId)) w1)))"

text \<open>
  The \<open>for ... of\<close> loop of \<open>main\<close>: one pipeline after the other; a thrown error leaves
  the loop at once, before the counter and before the pause.
\<close>

fun delete_each ::
  "config \<Rightarrow> pipeline remote \<Rightarrow> pipeline list \<Rightarrow> nat \<Rightarrow> pipeline world \<Rightarrow> (error + nat) \<times> pipeline world" where
  "delete_each cfg remote [] totalDeleted w = (Inr totalDeleted, w)"
| "delete_each cfg remote (p # ps) totalDeleted w =
     (case deletePipeline cfg remote (id p) w of
        (Inl e, w1) \<Rightarrow> (Inl e, w1)
      | (Inr u, w1) \<Rightarrow> delete_each cfg remote ps (Suc totalDeleted) (sleep (DELAY_MS cfg) w1))"

text \<open>
  The \<open>do ... while\<close> loop of \<open>main\<close>. It ends on an empty page or on an error; a remote
  that never sends either keeps it running, which is the value \<open>None\<close>.
\<close>

partial_function (option) fetch_and_delete ::
  "config \<Rightarrow> pipeline remote \<Rightarrow> nat \<Rightarrow> nat \<Rightarrow> pipeline world \<Rightarrow> ((error + nat) \<times> pipeline world) option" where
  "fetch_and_delete cfg remote page totalDeleted w =
     (case fetchPipelines cfg remote page (emit (Log (FetchingPipelinesPage page)) w) of
        (Inl e, w1) \<Rightarrow> Some (Inl e, w1)
      | (Inr pipelines, w1) \<Rightarrow>
          if length pipelines = 0 then Some (Inr totalDeleted, emit (Log NoMorePipelines) w1)
          else (case delete_each cfg remote pipelines totalDeleted
                       (emit (Log (FoundPipelines (length pipelines) page)) w1) of
                  (Inl e, w2) \<Rightarrow> Some (Inl e, w2)
                | (Inr deleted, w2) \<Rightarrow>
                    if length pipelines > 0 then fetch_and_delete cfg remote (page + 1) deleted w2
                    else Some (Inr deleted, w2)))"

declare fetch_and_delete.simps [code]

definition main_remove_pipelines ::
  "config \<Rightarrow> pipeline remote \<Rightarrow> pipeline world \<Rightarrow> pipeline run option" where
  "main_remove_pipelines cfg remote w =
     (case fetch_and_delete cfg remote 1 0 (emit (Log (RemovingAllPipelines (GITLAB_PROJECT_ID cfg))) w) of
        None \<Rightarrow> None
      | Some (Inl e, w1) \<Rightarrow> Some (exit 1 (emit (Err (ErrorRemovingPipelines e)) w1))
      | Some (Inr deleted, w1) \<Rightarrow>
          Some (exit 0 (emit (Log (SuccessfullyDeletedPipelines deleted (GITLAB_PROJECT_ID cfg))) w1)))"

text \<open>The script: the warning, five seconds to cancel, then \<open>main\<close>.\<close>

definition remove_pipelines :: "config \<Rightarrow> pipeline remote \<Rightarrow> pipeline run option" where
  "remove_pipelines cfg remote =
     main_remove_pipelines cfg remote
       (sleep 5000 (emit (Log PressCtrlC)
          (emit (Log (WarningDeleteAll (GITLAB_PROJECT_ID cfg))) start)))"

section \<open>set-env-vars\<close>

text \<open>
  The input document as the script finds it: no file at the path, a file that cannot be
  read, or its text, which \<open>JSON.parse\<close> either rejects (\<open>None\<close>) or turns into a value.
  A parsed number is an integer here.
\<close>

datatype input_file = Missing | Unreadable | Text "json option"

datatype js_type = TObject | TBoolean | TNumber | TString

fun typeof :: "json \<Rightarrow> js_type" where
  "typeof JNull = TObject"
| "typeof (JBool b) = TBoolean"
| "typeof (JNum n) = TNumber"
| "typeof (JStr s) = TString"
| "typeof (JArr xs) = TObject"
| "typeof (JObj es) = TObject"

text \<open>
  \<open>Object.entries\<close>: the entries of an object in the order it lists them; for an array the
  indices, in decimal, with the elements.
\<close>

fun entries :: "json \<Rightarrow> (string \<times> json) list" where
  "entries (JObj es) = es"
| "entries (JArr xs) = zip (map show_nat [0..<length xs]) xs"
| "entries v = []"

text \<open>
  \<open>String(value)\<close>, where the loop calls it: on a string, a number or a boolean. The
  last equation only makes the function total: the loop passes it no other value.
\<close>

fun String :: "json \<Rightarrow> string" where
  "String (JStr s) = s"
| "String (JNum n) = show_int n"
| "String (JBool b) = (if b then ''true'' else ''false'')"
| "String v = []"

definition variables_url :: "config \<Rightarrow> string" where
  "variables_url cfg = GITLAB_API_URL cfg @ ''/projects/'' @ GITLAB_PROJECT_ID cfg @ ''/variables''"

text \<open>The bodies are the values given to \<open>JSON.stringify\<close>.\<close>

definition update_request :: "config \<Rightarrow> string \<Rightarrow> string \<Rightarrow> request" where
  "update_request cfg key val =
     \<lparr>meth = PUT,
      url = variables_url cfg @ ''/'' @ encodeURIComponent key @ ''?filter[environment_scope]=''
            @ encodeURIComponent (GITLAB_ENVIRONMENT cfg),
      headers = [(''Content-Type'', ''application/json''), (''PRIVATE-TOKEN'', GITLAB_TOKEN cfg)],
      body = Some (JObj [(''value'', JStr val), (''protected'', JBool False), (''masked'', JBool False),
                         (''environment_scope'', JStr (GITLAB_ENVIRONMENT cfg))])\<rparr>"

definition create_request :: "config \<Rightarrow> string \<Rightarrow> string \<Rightarrow> request" where
  "create_request cfg key val =
     \<lparr>meth = POST,
      url = variables_url cfg,
      headers = [(''Content-Type'', ''application/json''), (''PRIVATE-TOKEN'', GITLAB_TOKEN cfg)],
      body = Some (JObj [(''key'', JStr key), (''value'', JStr val), (''protected'', JBool False),
                         (''masked'', JBool False),
                         (''environment_scope'', JStr (GITLAB_ENVIRONMENT cfg))])\<rparr>"

definition setting_failed :: "string \<Rightarrow> error \<Rightarrow> 'a world \<Rightarrow> (error + unit) \<times> 'a world" where
  "setting_failed key e w = (Inl e, emit (Err (ErrorSettingVariable key e)) w)"

definition setGitLabVariable ::
  "config \<Rightarrow> 'a remote \<Rightarrow> string \<Rightarrow> string \<Rightarrow> 'a world \<Rightarrow> (error + unit) \<times> 'a world" where
  "setGitLabVariable cfg remote key val w =
     (case fetch remote (update_request cfg key val) w of (ans, w1) \<Rightarrow>
        (case ans of
           Rejected \<Rightarrow> setting_failed key NetworkError w1
         | Response updateResponse \<Rightarrow>
             if status updateResponse = 404 then
               (case fetch remote (create_request cfg key val) w1 of (ans2, w2) \<Rightarrow>
                  (case ans2 of
                     Rejected \<Rightarrow> setting_failed key NetworkError w2
                   | Response createResponse \<Rightarrow>
                       if \<not> ok createResponse then
                         (case json createResponse of
                            None \<Rightarrow> setting_failed key SyntaxError w2
                          | Some _ \<Rightarrow> setting_failed key (Failed ToCreate (status createResponse)) w2)
                       else (Inr (), emit (Log (CreatedVariable key)) w2)))
             else if \<not> ok updateResponse then
               (case json updateResponse of
                  None \<Rightarrow> setting_failed key SyntaxError w1
                | Some _ \<Rightarrow> setting_failed key (Failed ToUpdate (status updateResponse)) w1)
             else (Inr (), emit (Log (UpdatedVariable key)) w1)))"

text \<open>
  The loop over the entries, with the promises it collects. The source starts every task
  before it awaits any; the model lists each task's events together, in the order the
  tasks are started. Every answer is given by the remote, so every way the tasks may
  interleave is a run of the model for some remote.
\<close>

fun set_each ::
  "config \<Rightarrow> 'a remote \<Rightarrow> (string \<times> json) list \<Rightarrow> nat \<Rightarrow> 'a world \<Rightarrow> nat \<times> 'a world" where
  "set_each cfg remote [] count w = (count, w)"
| "set_each cfg remote ((key, val) # es) count w =
     (if typeof val = TString \<or> typeof val = TNumber \<or> typeof val = TBoolean then
        (case setGitLabVariable cfg remote key (String val) w of
           (Inr u, w1) \<Rightarrow> set_each cfg remote es (Suc count) w1
         | (Inl e, w1) \<Rightarrow> set_each cfg remote es count (emit (Err (FailedToSetVariable key e)) w1))
      else set_each cfg remote es count (emit (Warn (SkippingNonPrimitive key)) w))"

definition main_set_env_vars :: "config \<Rightarrow> input_file \<Rightarrow> 'a remote \<Rightarrow> 'a world \<Rightarrow> 'a run" where
  "main_set_env_vars cfg file remote w =
     (case file of
        Missing \<Rightarrow> exit 1 (emit (Err (ErrorProcessingFile ReadError)) w)
      | Unreadable \<Rightarrow> exit 1 (emit (Err (ErrorProcessingFile ReadError)) w)
      | Text None \<Rightarrow> exit 1 (emit (Err (ErrorProcessingFile SyntaxError)) w)
      | Text (Some envVariables) \<Rightarrow>
          if typeof envVariables \<noteq> TObject \<or> envVariables = JNull then
            exit 1 (emit (Err MustContainObject) w)
          else
            (case set_each cfg remote (entries envVariables) 0
                    (emit (Log (SettingVariables (GITLAB_PROJECT_ID cfg))) w) of
               (count, w1) \<Rightarrow> exit 0 (emit (Log (SuccessfullySet count (ENV_FILE_PATH cfg))) w1)))"

text \<open>The script: the \<open>existsSync\<close> test, then \<open>main\<close>.\<close>

definition set_env_vars :: "config \<Rightarrow> input_file \<Rightarrow> 'a remote \<Rightarrow> 'a run" where
  "set_env_vars cfg file remote =
     (if file = Missing then exit 1 (emit (Err (FileNotFound (ENV_FILE_PATH cfg))) start)
      else main_set_env_vars cfg file remote start)"

section \<open>remove-env-vars\<close>

text \<open>A listed variable: its key, which the script reads, and the scope it belongs to.\<close>

record variable =
  key :: string
  environment_scope :: string

text \<open>
  \<open>parseInt\<close> without a radix: leading white space (of ASCII), a sign, \<open>0x\<close> for
  base 16, then the longest run of digits; \<open>None\<close> is \<open>NaN\<close>.
\<close>

definition is_space :: "char \<Rightarrow> bool" where
  "is_space c = ((of_char c :: nat) \<in> {9, 10, 11, 12, 13, 32})"

definition digit_value :: "char \<Rightarrow> nat" where
  "digit_value c =
     (let n = (of_char c :: nat) in
        if 48 \<le> n \<and> n \<le> 57 then n - 48
        else if 97 \<le> n \<and> n \<le> 122 then n - 87
        else if 65 \<le> n \<and> n \<le> 90 then n - 55
        else 36)"

definition parseInt :: "string \<Rightarrow> int option" where
  "parseInt s =
     (let t = dropWhile is_space s;
          neg = (case t of [] \<Rightarrow> False | c # r \<Rightarrow> c = CHR ''-'');
          u = (case t of [] \<Rightarrow> t | c # r \<Rightarrow> if c = CHR ''-'' \<or> c = CHR ''+'' then r else t);
          hex = (take 2 u = ''0x'' \<or> take 2 u = ''0X'');
          radix = (if hex then 16 else 10);
          ds = takeWhile (\<lambda>c. digit_value c < radix) (if hex then drop 2 u else u);
          n = int (foldl (\<lambda>a c. a * radix + digit_value c) 0 ds)
      in if ds = [] then None else Some (if neg then - n else n))"

definition variables_request :: "config \<Rightarrow> nat \<Rightarrow> request" where
  "variables_request cfg page =
     \<lparr>meth = GET,
      url = GITLAB_API_URL cfg @ ''/projects/'' @ GITLAB_PROJECT_ID cfg
            @ ''/variables?scope=environment&environment_scope='' @ GITLAB_ENVIRONMENT cfg
            @ ''&page='' @ show_nat page @ ''&per_page='' @ show_nat 100,
      headers = [(''PRIVATE-TOKEN'', GITLAB_TOKEN cfg), (''Content-Type'', ''application/json'')],
      body = None\<rparr>"

text \<open>
  The \<open>while\<close> loop of \<open>fetchEnvironmentVariables\<close>. A remote that always announces
  more pages keeps it running: the value \<open>None\<close>.
\<close>

partial_function (option) fetch_pages ::
  "config \<Rightarrow> variable remote \<Rightarrow> nat \<Rightarrow> variable list \<Rightarrow> variable world
     \<Rightarrow> ((error + variable list) \<times> variable world) option" where
  "fetch_pages cfg remote page allVariables w =
     (case fetch remote (variables_request cfg page) (emit (Log (FetchingPage page)) w) of
        (Rejected, w1) \<Rightarrow> Some (Inl NetworkError, w1)
      | (Response r, w1) \<Rightarrow>
          if \<not> ok r then Some (Inl (Failed ToFetch (status r)), w1)
          else (case json r of
                  None \<Rightarrow> Some (Inl SyntaxError, w1)
                | Some variables \<Rightarrow>
                    (case parseInt (case x_total_pages r of
                                      None \<Rightarrow> ''1''
                                    | Some h \<Rightarrow> if h = [] then ''1'' else h) of
                       None \<Rightarrow> Some (Inr (allVariables @ variables), w1)
                     | Some totalPages \<Rightarrow>
                         if int page < totalPages
                         then fetch_pages cfg remote (page + 1) (allVariables @ variables) w1
                         else Some (Inr (allVariables @ variables), w1))))"

declare fetch_pages.simps [code]

definition fetchEnvironmentVariables ::
  "config \<Rightarrow> variable remote \<Rightarrow> variable world \<Rightarrow> ((error + variable list) \<times> variable world) option" where
  "fetchEnvironmentVariables cfg remote w =
     (case fetch_pages cfg remote 1 [] (emit (Log (FetchingVariables (GITLAB_ENVIRONMENT cfg))) w) of
        None \<Rightarrow> None
      | Some (Inl e, w1) \<Rightarrow> Some (Inl e, emit (Err (ErrorFetchingVariables e)) w1)
      | Some (Inr allVariables, w1) \<Rightarrow>
          Some (Inr allVariables,
                emit (Log (FoundVariables (length allVariables) (GITLAB_ENVIRONMENT cfg))) w1))"

definition variable_request :: "config \<Rightarrow> string \<Rightarrow> request" where
  "variable_request cfg k =
     \<lparr>meth = DELETE,
      url = GITLAB_API_URL cfg @ ''/projects/'' @ GITLAB_PROJECT_ID cfg @ ''/variables/''
            @ encodeURIComponent k,
      headers = [(''PRIVATE-TOKEN'', GITLAB_TOKEN cfg)],
      body = None\<rparr>"

definition deleteVariable ::
  "config \<Rightarrow> variable remote \<Rightarrow> string \<Rightarrow> variable world \<Rightarrow> (error + unit) \<times> variable world" where
  "deleteVariable cfg remote k w =
     (case fetch remote (variable_request cfg k) (emit (Log (DeletingVariable k)) w) of (ans, w1) \<Rightarrow>
        (case (case ans of
                 Rejected \<Rightarrow> Inl NetworkError
               | Response r \<Rightarrow> if \<not> ok r then Inl (Failed ToDelete (status r)) else Inr ())
         of Inl e \<Rightarrow> (Inl e, emit (Err (ErrorDeletingVariable k e)) w1)
          | Inr u \<Rightarrow> (Inr u, emit (Log (DeletedVariable k)) w1)))"

text \<open>
  \<open>Promise.allSettled\<close> over the mapped list: one result for each variable, in the order of
  the list, whatever the other results are. The tasks are listed as for \<open>set_each\<close>.
\<close>

fun delete_all ::
  "config \<Rightarrow> variable remote \<Rightarrow> variable list \<Rightarrow> variable world
     \<Rightarrow> (error + unit) list \<times> variable world" where
  "delete_all cfg remote [] w = ([], w)"
| "delete_all cfg remote (v # vs) w =
     (case deleteVariable cfg remote (key v) w of (r, w1) \<Rightarrow>
        (case delete_all cfg remote vs w1 of (rs, w2) \<Rightarrow> (r # rs, w2)))"

fun fulfilled :: "error + unit \<Rightarrow> bool" where
  "fulfilled (Inr u) = True"
| "fulfilled (Inl e) = False"

fun rejected :: "error + unit \<Rightarrow> bool" where
  "rejected (Inl e) = True"
| "rejected (Inr u) = False"

definition removeAllEnvironmentVariables ::
  "config \<Rightarrow> variable remote \<Rightarrow> variable run option" where
  "removeAllEnvironmentVariables cfg remote =
     (case fetchEnvironmentVariables cfg remote
             (emit (Log (StartingRemoval (GITLAB_ENVIRONMENT cfg))) start) of
        None \<Rightarrow> None
      | Some (Inl e, w1) \<Rightarrow> Some (exit 1 (emit (Err (FatalError e)) w1))
      | Some (Inr variables, w1) \<Rightarrow>
          if length variables = 0 then
            Some (exit 0 (emit (Log (NoVariablesFound (GITLAB_ENVIRONMENT cfg))) w1))
          else
            (case delete_all cfg remote variables
                    (emit (Log (PreparingToDelete (length variables))) w1) of
               (results, w2) \<Rightarrow>
                 (let successes = length (filter fulfilled results);
                      failures = length (filter rejected results);
                      w3 = emit (Log (FailedToDelete failures))
                             (emit (Log (SuccessfullyDeleted successes))
                                (emit (Log (TotalProcessed (length variables)))
                                   (emit (Log SummaryHeader) w2)))
                  in if failures > 0 then Some (exit 1 (emit (Err SomeNotDeleted) w3))
                     else Some (exit 0 (emit (Log (AllRemoved (GITLAB_ENVIRONMENT cfg))) w3)))))"

section \<open>Reading a run\<close>

text \<open>What the statements below read off an answer and off the events of a run.\<close>

fun answered_ok :: "'a fetch_result \<Rightarrow> bool" where
  "answered_ok Rejected = False"
| "answered_ok (Response r) = ok r"

fun not_found :: "'a fetch_result \<Rightarrow> bool" where
  "not_found Rejected = False"
| "not_found (Response r) = (status r = 404)"

text \<open>An answer that lists the items \<open>xs\<close>: ok, with \<open>xs\<close> as its body.\<close>

fun lists :: "'a fetch_result \<Rightarrow> 'a list \<Rightarrow> bool" where
  "lists Rejected xs = False"
| "lists (Response r) xs = (ok r \<and> json r = Some xs)"

fun requests :: "'a event list \<Rightarrow> request list" where
  "requests [] = []"
| "requests (Call q a # es) = q # requests es"
| "requests (e # es) = requests es"

fun calls :: "'a event list \<Rightarrow> (request \<times> 'a fetch_result) list" where
  "calls [] = []"
| "calls (Call q a # es) = (q, a) # calls es"
| "calls (e # es) = calls es"

fun console :: "'a event list \<Rightarrow> 'a event list" where
  "console [] = []"
| "console (Call q a # es) = console es"
| "console (Sleep ms # es) = console es"
| "console (e # es) = e # console es"

fun warnings :: "'a event list \<Rightarrow> line list" where
  "warnings [] = []"
| "warnings (Warn l # es) = l # warnings es"
| "warnings (e # es) = warnings es"

fun without_warnings :: "'a event list \<Rightarrow> 'a event list" where
  "without_warnings [] = []"
| "without_warnings (Warn l # es) = without_warnings es"
| "without_warnings (e # es) = e # without_warnings es"

text \<open>A world with the warnings taken out of its trace.\<close>

definition quiet :: "'a world \<Rightarrow> 'a world" where
  "quiet w = \<lparr>issued = issued w, trace = without_warnings (trace w)\<rparr>"

text \<open>The requests and the pauses of a run, in order, without the answers.\<close>

datatype step = Request request | Pause nat

fun steps :: "'a event list \<Rightarrow> step list" where
  "steps [] = []"
| "steps (Call q a # es) = Request q # steps es"
| "steps (Sleep ms # es) = Pause ms # steps es"
| "steps (e # es) = steps es"

text \<open>
  A call went well when it was answered ok and, for a list request, with a body that
  \<open>response.json()\<close> accepts. The calls of a run that did not go well.
\<close>

fun good :: "request \<times> 'a fetch_result \<Rightarrow> bool" where
  "good (q, Rejected) = False"
| "good (q, Response r) = (ok r \<and> (meth q = GET \<longrightarrow> json r \<noteq> None))"

definition failures :: "'a event list \<Rightarrow> (request \<times> 'a fetch_result) list" where
  "failures evs = filter (\<lambda>c. \<not> good c) (calls evs)"

text \<open>
  Failing fast, read off the events of an operation: every call but the last went well,
  and the operation succeeded exactly when the last one went well too.
\<close>

definition fail_fast :: "'a event list \<Rightarrow> bool \<Rightarrow> bool" where
  "fail_fast evs succeeded =
     (list_all good (butlast (calls evs)) \<and> succeeded = list_all good (calls evs))"

text \<open>
  The thrown value that a list call of \<open>fetchEnvironmentVariables\<close> ends with when its
  answer is not a readable page.
\<close>

fun cause :: "'a fetch_result \<Rightarrow> error" where
  "cause Rejected = NetworkError"
| "cause (Response r) = (if \<not> ok r then Failed ToFetch (status r) else SyntaxError)"

subsection \<open>set-env-vars\<close>

text \<open>
  The test of the loop on the value of an entry, the test of \<open>main\<close> on the document,
  and the keys that \<open>main\<close> reports as not set.
\<close>

definition primitive :: "json \<Rightarrow> bool" where
  "primitive v = (typeof v = TString \<or> typeof v = TNumber \<or> typeof v = TBoolean)"

fun accepted :: "input_file \<Rightarrow> bool" where
  "accepted (Text (Some v)) = (typeof v = TObject \<and> v \<noteq> JNull)"
| "accepted f = False"

fun failed_to_set :: "'a event list \<Rightarrow> string list" where
  "failed_to_set [] = []"
| "failed_to_set (Err (FailedToSetVariable k e) # es) = k # failed_to_set es"
| "failed_to_set (e # es) = failed_to_set es"

text \<open>
  What the answers of the remote make of the entries of a document, one entry after the
  other: for every entry with a primitive value, its key and whether the key is set, which
  it is when its update is answered ok, or answered with 404 and its creation answered ok.
  The calls of the first entry start at call number \<open>n\<close>; an entry takes two calls when
  its update is answered with 404 and one otherwise.
\<close>

fun outcomes :: "config \<Rightarrow> 'a remote \<Rightarrow> (string \<times> json) list \<Rightarrow> nat \<Rightarrow> (string \<times> bool) list" where
  "outcomes cfg remote [] n = []"
| "outcomes cfg remote ((k, v) # es) n =
     (if primitive v then
        (if not_found (remote n (update_request cfg k (String v))) then
           (k, answered_ok (remote (Suc n) (create_request cfg k (String v))))
             # outcomes cfg remote es (Suc (Suc n))
         else (k, answered_ok (remote n (update_request cfg k (String v))))
             # outcomes cfg remote es (Suc n))
      else outcomes cfg remote es n)"

text \<open>The lines of \<open>set-env-vars\<close> that are about a single key, and the events that print one.\<close>

fun about_a_key :: "line \<Rightarrow> bool" where
  "about_a_key (ErrorSettingVariable k e) = True"
| "about_a_key (CreatedVariable k) = True"
| "about_a_key (UpdatedVariable k) = True"
| "about_a_key (FailedToSetVariable k e) = True"
| "about_a_key (SkippingNonPrimitive k) = True"
| "about_a_key l = False"

fun per_key :: "'a event \<Rightarrow> bool" where
  "per_key (Log l) = about_a_key l"
| "per_key (Warn l) = about_a_key l"
| "per_key (Err l) = about_a_key l"
| "per_key e = False"

subsection \<open>remove-pipelines\<close>

text \<open>The steps of deleting the pipelines of one page, when every call succeeds.\<close>

definition delete_steps :: "config \<Rightarrow> pipeline list \<Rightarrow> step list" where
  "delete_steps cfg ps =
     concat (map (\<lambda>p. [Request (pipeline_request cfg (id p)), Pause (DELAY_MS cfg)]) ps)"

text \<open>
  A remote that answers the list requests for the pages \<open>page\<close>, \<open>page + 1\<close>, ... with the
  non-empty pages \<open>pgs\<close>, whenever they are asked; and the steps of a run that lists and
  deletes these pages.
\<close>

fun serves :: "config \<Rightarrow> pipeline remote \<Rightarrow> nat \<Rightarrow> pipeline list list \<Rightarrow> bool" where
  "serves cfg remote page [] = True"
| "serves cfg remote page (pg # pgs) =
     (pg \<noteq> [] \<and> (\<forall>n. lists (remote n (pipelines_request cfg page)) pg)
      \<and> serves cfg remote (Suc page) pgs)"

fun pages_steps :: "config \<Rightarrow> nat \<Rightarrow> pipeline list list \<Rightarrow> step list" where
  "pages_steps cfg page [] = []"
| "pages_steps cfg page (pg # pgs) =
     Request (pipelines_request cfg page) # delete_steps cfg pg @ pages_steps cfg (Suc page) pgs"

text \<open>An answer to a list request after which the loop goes on: a page that is not empty.\<close>

fun more_pipelines :: "pipeline fetch_result \<Rightarrow> bool" where
  "more_pipelines Rejected = False"
| "more_pipelines (Response r) = (ok r \<and> (case json r of None \<Rightarrow> False | Some ps \<Rightarrow> ps \<noteq> []))"

subsection \<open>remove-env-vars\<close>

text \<open>
  A collection \<open>xs\<close> in pages of size \<open>P\<close>: page \<open>k\<close>, counted from 1, and the number of
  pages. An answer that announces \<open>T\<close> pages in \<open>x-total-pages\<close>.
\<close>

definition slice :: "nat \<Rightarrow> 'a list \<Rightarrow> nat \<Rightarrow> 'a list" where
  "slice P xs k = take P (drop ((k - 1) * P) xs)"

definition page_count :: "nat \<Rightarrow> nat \<Rightarrow> nat" where
  "page_count P N = (N + P - 1) div P"

fun announces :: "'a fetch_result \<Rightarrow> nat \<Rightarrow> bool" where
  "announces Rejected T = False"
| "announces (Response r) T =
     (case x_total_pages r of None \<Rightarrow> False | Some h \<Rightarrow> h \<noteq> [] \<and> parseInt h = Some (int T))"

text \<open>
  An answer to the list request for \<open>page\<close> after which the loop goes on: a page that
  announces more pages than that.
\<close>

fun more_pages :: "variable fetch_result \<Rightarrow> nat \<Rightarrow> bool" where
  "more_pages Rejected page = False"
| "more_pages (Response r) page =
     (ok r \<and> json r \<noteq> None
      \<and> (case parseInt (case x_total_pages r of None \<Rightarrow> ''1''
                                    | Some h \<Rightarrow> if h = [] then ''1'' else h) of
            None \<Rightarrow> False
          | Some totalPages \<Rightarrow> int page < totalPages))"

section \<open>Inputs for the examples\<close>

definition cfg0 :: config where
  "cfg0 =
     \<lparr>GITLAB_TOKEN = ''t'', GITLAB_PROJECT_ID = ''7'', GITLAB_API_URL = ''https://gitlab.example/api/v4'',
      GITLAB_ENVIRONMENT = ''production'', ENV_FILE_PATH = ''vars.json'', BATCH_SIZE = 20,
      DELAY_MS = 1000\<rparr>"

text \<open>
  An answer with the status \<open>s\<close> and an empty JSON body; a page of items, without and
  with the header \<open>x-total-pages\<close>.
\<close>

definition answer :: "nat \<Rightarrow> 'a fetch_result" where
  "answer s = Response \<lparr>status = s, x_total_pages = None, json = Some []\<rparr>"

definition page_of :: "'a list \<Rightarrow> 'a fetch_result" where
  "page_of xs = Response \<lparr>status = 200, x_total_pages = None, json = Some xs\<rparr>"

definition paged :: "nat \<Rightarrow> 'a list \<Rightarrow> 'a fetch_result" where
  "paged T xs = Response \<lparr>status = 200, x_total_pages = Some (show_nat T), json = Some xs\<rparr>"

definition numbered :: "nat list \<Rightarrow> pipeline list" where
  "numbered ids = map (\<lambda>i. \<lparr>id = i\<rparr>) ids"

definition var :: "string \<Rightarrow> variable" where
  "var k = \<lparr>key = k, environment_scope = ''production''\<rparr>"

text \<open>
  A remote with the pipelines 1 to 25, listed in pages of 20 as they were when the run
  began; every deletion is answered with 204.
\<close>

definition remote25 :: "pipeline remote" where
  "remote25 n q =
     (if meth q = DELETE then answer 204
      else if q = pipelines_request cfg0 1 then page_of (numbered [1..<21])
      else if q = pipelines_request cfg0 2 then page_of (numbered [21..<26])
      else page_of [])"

text \<open>The same remote, but the deletion of pipeline 22 is answered with 500.\<close>

definition remote22 :: "pipeline remote" where
  "remote22 n q = (if q = pipeline_request cfg0 22 then answer 500 else remote25 n q)"

text \<open>A remote with the pipelines 1, 2 and 3 on one page; the deletion of 2 is answered with 500.\<close>

definition remote3 :: "pipeline remote" where
  "remote3 n q =
     (if q = pipeline_request cfg0 2 then answer 500
      else if meth q = DELETE then answer 204
      else if q = pipelines_request cfg0 1 then page_of (numbered [1, 2, 3])
      else page_of [])"

text \<open>
  A remote with the variables A, B and C, listed in pages of two; the deletion of B is
  answered with 404, every other deletion with 204.
\<close>

definition remote_vars :: "variable remote" where
  "remote_vars n q =
     (if meth q = DELETE then (if q = variable_request cfg0 ''B'' then answer 404 else answer 204)
      else if q = variables_request cfg0 1 then paged 2 [var ''A'', var ''B'']
      else if q = variables_request cfg0 2 then paged 2 [var ''C'']
      else answer 500)"

text \<open>The same remote, but the second list page is answered with 503.\<close>

definition remote_broken :: "variable remote" where
  "remote_broken n q = (if q = variables_request cfg0 2 then answer 503 else remote_vars n q)"

text \<open>A remote without variables.\<close>

definition remote_empty :: "variable remote" where
  "remote_empty n q = page_of []"

text \<open>A remote that answers the update of B with 500 and everything else with 200.\<close>

definition remote_B :: "unit remote" where
  "remote_B n q = (if q = update_request cfg0 ''B'' ''2'' then answer 500 else answer 200)"

text \<open>
  A remote with the pipelines 1 and 2 on page 1: every deletion is answered with 204 and
  the list request for any other page with 503.
\<close>

definition remote_outage :: "pipeline remote" where
  "remote_outage n q =
     (if meth q = DELETE then answer 204
      else if q = pipelines_request cfg0 1 then page_of (numbered [1, 2])
      else answer 503)"

text \<open>A remote that answers every request with 502 and a body that is not JSON.\<close>

definition bad_gateway :: "'a remote" where
  "bad_gateway n q = Response \<lparr>status = 502, x_total_pages = None, json = None\<rparr>"

text \<open>
  A project as the service keeps it: the ids of its pipelines, in the order in which they
  are listed. A DELETE for a pipeline of the project is answered with 204 and removes it
  (one for a pipeline that is not there with 404); a list request for page \<open>k\<close> is answered
  with page \<open>k\<close> of the pipelines that the project has at that time, in pages of
  \<open>BATCH_SIZE\<close>, and the pages after the last are empty. The project after a
  sequence of requests, and the remote of a run whose first requests are \<open>history\<close>: call
  number \<open>n\<close> is answered by the project as the first \<open>n\<close> requests have left it.
\<close>

definition gitlab :: "config \<Rightarrow> nat list \<Rightarrow> request \<Rightarrow> pipeline fetch_result \<times> nat list" where
  "gitlab cfg ids q =
     (if meth q = DELETE then
        (case find (\<lambda>i. q = pipeline_request cfg i) ids of
           None \<Rightarrow> (answer 404, ids)
         | Some i \<Rightarrow> (answer 204, remove1 i ids))
      else
        (case find (\<lambda>k. q = pipelines_request cfg k) [1..<Suc (Suc (length ids))] of
           None \<Rightarrow> (page_of [], ids)
         | Some k \<Rightarrow> (page_of (numbered (slice (BATCH_SIZE cfg) ids k)), ids)))"

fun serve :: "config \<Rightarrow> nat list \<Rightarrow> request list \<Rightarrow> nat list" where
  "serve cfg ids [] = ids"
| "serve cfg ids (q # qs) = serve cfg (snd (gitlab cfg ids q)) qs"

definition live :: "config \<Rightarrow> nat list \<Rightarrow> request list \<Rightarrow> pipeline remote" where
  "live cfg ids history n q = fst (gitlab cfg (serve cfg ids (take n history)) q)"

text \<open>
  The requests of the run against the project with the pipelines 1 to 25: the list
  request for page 1, the deletions of the pipelines 1 to 20, the list request for page 2.
\<close>

definition history25 :: "request list" where
  "history25 =
     pipelines_request cfg0 1 # map (pipeline_request cfg0) [1..<21] @ [pipelines_request cfg0 2]"

section \<open>Basic facts\<close>

lemma trace_emit: "trace (emit e w) = trace w @ [e]"
  by (simp add: emit_def)

lemma issued_emit: "issued (emit e w) = issued w"
  by (simp add: emit_def)

lemma fetch_eq:
  "fetch remote q w =
     (remote (issued w) q,
      \<lparr>issued = Suc (issued w), trace = trace w @ [Call q (remote (issued w) q)]\<rparr>)"
  by (simp add: fetch_def Let_def)

lemma requests_append: "requests (xs @ ys) = requests xs @ requests ys"
  by (induction xs rule: requests.induct) simp_all

lemma calls_append: "calls (xs @ ys) = calls xs @ calls ys"
  by (induction xs rule: calls.induct) simp_all

lemma warnings_append: "warnings (xs @ ys) = warnings xs @ warnings ys"
  by (induction xs rule: warnings.induct) simp_all

lemma without_warnings_append:
  "without_warnings (xs @ ys) = without_warnings xs @ without_warnings ys"
  by (induction xs rule: without_warnings.induct) simp_all

lemma not_ok_404: "status r = 404 \<Longrightarrow> \<not> ok r"
  by (simp add: ok_def)

section \<open>set-env-vars: the upsert of one variable\<close>

text \<open>
  C1. \<open>setGitLabVariable\<close> first sends the update: a PUT to the variable's own address,
  with the target environment as filter and as scope. It sends the create, a POST with the
  same key, value and scope, exactly when the answer to the update has status 404. The
  key is set when the update is answered ok or, after a 404, the create is answered ok;
  every other answer to either call makes the call fail for that key. Both bodies carry
  \<open>protected\<close> and \<open>masked\<close> as false.
\<close>

theorem setGitLabVariable_upsert:
  "calls (trace (snd (setGitLabVariable cfg remote k v w))) =
     calls (trace w) @
       (update_request cfg k v, remote (issued w) (update_request cfg k v)) #
       (if not_found (remote (issued w) (update_request cfg k v))
        then [(create_request cfg k v, remote (Suc (issued w)) (create_request cfg k v))] else [])
   \<and> (\<exists>u. fst (setGitLabVariable cfg remote k v w) = Inr u) =
       (answered_ok (remote (issued w) (update_request cfg k v))
        \<or> not_found (remote (issued w) (update_request cfg k v))
          \<and> answered_ok (remote (Suc (issued w)) (create_request cfg k v)))
   \<and> (\<exists>e. fst (setGitLabVariable cfg remote k v w) = Inl e) =
       (\<not> (answered_ok (remote (issued w) (update_request cfg k v))
        \<or> not_found (remote (issued w) (update_request cfg k v))
          \<and> answered_ok (remote (Suc (issued w)) (create_request cfg k v))))
   \<and> meth (update_request cfg k v) = PUT
   \<and> url (update_request cfg k v) =
       variables_url cfg @ ''/'' @ encodeURIComponent k @ ''?filter[environment_scope]=''
         @ encodeURIComponent (GITLAB_ENVIRONMENT cfg)
   \<and> body (update_request cfg k v) =
       Some (JObj [(''value'', JStr v), (''protected'', JBool False), (''masked'', JBool False),
                   (''environment_scope'', JStr (GITLAB_ENVIRONMENT cfg))])
   \<and> meth (create_request cfg k v) = POST
   \<and> url (create_request cfg k v) = variables_url cfg
   \<and> body (create_request cfg k v) =
       Some (JObj [(''key'', JStr k), (''value'', JStr v), (''protected'', JBool False),
                   (''masked'', JBool False),
                   (''environment_scope'', JStr (GITLAB_ENVIRONMENT cfg))])"
proof -
  have shape: "calls (trace (snd (setGitLabVariable cfg remote k v w))) =
     calls (trace w) @
       (update_request cfg k v, remote (issued w) (update_request cfg k v)) #
       (if not_found (remote (issued w) (update_request cfg k v))
        then [(create_request cfg k v, remote (Suc (issued w)) (create_request cfg k v))] else [])"
    by (simp add: setGitLabVariable_def fetch_eq setting_failed_def trace_emit calls_append
        split: fetch_result.splits option.splits)
  have set: "(\<exists>u. fst (setGitLabVariable cfg remote k v w) = Inr u) =
       (answered_ok (remote (issued w) (update_request cfg k v))
        \<or> not_found (remote (issued w) (update_request cfg k v))
          \<and> answered_ok (remote (Suc (issued w)) (create_request cfg k v)))"
    by (auto simp: setGitLabVariable_def fetch_eq setting_failed_def not_ok_404
        split: fetch_result.splits option.splits)
  have unset: "(\<exists>e. fst (setGitLabVariable cfg remote k v w) = Inl e) =
       (\<not> (\<exists>u. fst (setGitLabVariable cfg remote k v w) = Inr u))"
    by (cases "fst (setGitLabVariable cfg remote k v w)") simp_all
  show ?thesis
    unfolding unset set
    using shape by (simp add: update_request_def create_request_def)
qed

section \<open>set-env-vars: the input document\<close>

lemma setGitLabVariable_quiet:
  "setGitLabVariable cfg remote k v (quiet w) =
     (fst (setGitLabVariable cfg remote k v w), quiet (snd (setGitLabVariable cfg remote k v w)))"
  by (simp add: setGitLabVariable_def fetch_eq setting_failed_def quiet_def emit_def
      without_warnings_append split: fetch_result.splits option.splits)

lemma quiet_emit_warn: "quiet (emit (Warn l) w) = quiet w"
  by (simp add: quiet_def emit_def without_warnings_append)

lemma quiet_emit_err: "quiet (emit (Err l) w) = emit (Err l) (quiet w)"
  by (simp add: quiet_def emit_def without_warnings_append)

lemma set_each_quiet:
  "set_each cfg remote (filter (\<lambda>(k, v). primitive v) es) c (quiet w) =
     (fst (set_each cfg remote es c w), quiet (snd (set_each cfg remote es c w)))"
proof (induction es arbitrary: c w)
  case Nil
  then show ?case by simp
next
  case (Cons a es)
  obtain k v where a: "a = (k, v)" by (cases a)
  show ?case
  proof (cases "primitive v")
    case True
    then show ?thesis
      using Cons.IH
      by (simp add: a primitive_def setGitLabVariable_quiet[of cfg remote k "String v" w]
          quiet_emit_err[symmetric] split: prod.splits sum.splits)
  next
    case False
    then show ?thesis
      using Cons.IH[of c "emit (Warn (SkippingNonPrimitive k)) w"]
      by (simp add: a primitive_def quiet_emit_warn)
  qed
qed

lemma setGitLabVariable_warnings:
  "warnings (trace (snd (setGitLabVariable cfg remote k v w))) = warnings (trace w)"
  by (simp add: setGitLabVariable_def fetch_eq setting_failed_def emit_def warnings_append
      split: fetch_result.splits option.splits)

lemma set_each_warnings:
  "warnings (trace (snd (set_each cfg remote es c w))) =
     warnings (trace w) @
       map (\<lambda>(k, v). SkippingNonPrimitive k) (filter (\<lambda>(k, v). \<not> primitive v) es)"
proof (induction es arbitrary: c w)
  case Nil
  then show ?case by simp
next
  case (Cons a es)
  obtain k v where a: "a = (k, v)" by (cases a)
  show ?case
    using setGitLabVariable_warnings[of cfg remote k "String v" w]
    by (auto simp: a primitive_def Cons.IH trace_emit warnings_append split: prod.splits sum.splits)
qed

lemma quiet_start: "quiet (emit (Log l) start) = emit (Log l) start"
  by (simp add: quiet_def emit_def start_def)

text \<open>
  C9. An entry of the document whose value is not a string, a number or a boolean gets a
  warning and nothing else. The run with such entries is, the warnings apart, the run on
  the document without them: the same calls with the same answers, the same count in the
  last line. The warnings are one for each such entry, in order, and the exit status
  is 0.
\<close>

theorem non_primitive_entries_are_skipped:
  "exit_code (set_env_vars cfg (Text (Some (JObj es))) remote) = 0
   \<and> without_warnings (events (set_env_vars cfg (Text (Some (JObj es))) remote)) =
       events (set_env_vars cfg (Text (Some (JObj (filter (\<lambda>(k, v). primitive v) es)))) remote)
   \<and> warnings (events (set_env_vars cfg (Text (Some (JObj es))) remote)) =
       map (\<lambda>(k, v). SkippingNonPrimitive k) (filter (\<lambda>(k, v). \<not> primitive v) es)"
proof -
  let ?w = "emit (Log (SettingVariables (GITLAB_PROJECT_ID cfg))) start"
  obtain c w1 where r: "set_each cfg remote es 0 ?w = (c, w1)"
    by (cases "set_each cfg remote es 0 ?w")
  have q: "set_each cfg remote (filter (\<lambda>(k, v). primitive v) es) 0 ?w = (c, quiet w1)"
    using set_each_quiet[of cfg remote es 0 ?w] by (simp add: quiet_start r)
  have w: "warnings (trace w1) =
      map (\<lambda>(k, v). SkippingNonPrimitive k) (filter (\<lambda>(k, v). \<not> primitive v) es)"
  proof -
    have "warnings (trace ?w) = []" by (simp add: trace_emit start_def)
    then show ?thesis using set_each_warnings[of cfg remote es 0 ?w] by (simp add: r)
  qed
  show ?thesis
    by (simp add: set_env_vars_def main_set_env_vars_def q r w exit_def trace_emit
        without_warnings_append warnings_append quiet_def)
qed

lemma non_object_document_aborts:
  assumes "file = Missing \<or> file = Unreadable \<or> file = Text None
    \<or> (\<exists>v. file = Text (Some v) \<and> (typeof v \<noteq> TObject \<or> v = JNull))"
  shows "exit_code (set_env_vars cfg file remote) = 1 \<and> calls (events (set_env_vars cfg file remote)) = []"
  using assms
  by (auto simp: set_env_vars_def main_set_env_vars_def exit_def trace_emit start_def)

text \<open>
  C8. The test on the parsed document is \<open>typeof envVariables !== "object" || envVariables
  === null\<close>, and its message asks for a JSON object. A JSON array passes it: for the
  document \<open>["x"]\<close> the script sends the update for the key \<open>0\<close> and exits with
  status 0.
\<close>

theorem array_document_is_processed:
  "calls (events (set_env_vars cfg0 (Text (Some (JArr [JStr ''x'']))) (\<lambda>n q. answer 200 :: unit fetch_result)))
     = [(update_request cfg0 ''0'' ''x'', answer 200)]
   \<and> exit_code (set_env_vars cfg0 (Text (Some (JArr [JStr ''x'']))) (\<lambda>n q. answer 200 :: unit fetch_result)) = 0"
  by code_simp

section \<open>remove-env-vars: the delete request\<close>

lemma of_char_hex_char:
  "d < 16 \<Longrightarrow> (of_char (hex_char d) :: nat) = (if d < 10 then 48 + d else 55 + d)"
  by (simp add: hex_char_def)

lemma of_char_lt_256: "(of_char x :: nat) < 256"
proof -
  have "(of_char x :: nat) mod 256 < 256" by (simp del: of_char_mod_256)
  then show ?thesis by simp
qed

lemma percent_chars:
  assumes "c \<in> set (percent x)"
  shows "unreserved c \<or> c = CHR ''%''
    \<or> (48 \<le> (of_char c :: nat) \<and> (of_char c :: nat) \<le> 57)
    \<or> (65 \<le> (of_char c :: nat) \<and> (of_char c :: nat) \<le> 70)"
proof -
  have a: "(of_char x :: nat) div 16 < 16"
    using of_char_lt_256[of x] by arith
  have b: "(of_char x :: nat) mod 16 < 16" by simp
  have h: "d < 16 \<Longrightarrow> (48 \<le> (of_char (hex_char d) :: nat) \<and> (of_char (hex_char d) :: nat) \<le> 57)
    \<or> (65 \<le> (of_char (hex_char d) :: nat) \<and> (of_char (hex_char d) :: nat) \<le> 70)" for d
    by (simp add: of_char_hex_char)
  from assms consider "unreserved c" | "c = CHR ''%''" | "c = hex_char ((of_char x :: nat) div 16)"
    | "c = hex_char ((of_char x :: nat) mod 16)"
    by (auto simp: percent_def split: if_splits)
  then show ?thesis
    using h[OF a] h[OF b] by cases blast+
qed

lemma encoded_chars:
  assumes "c \<in> set (encodeURIComponent s)"
  shows "unreserved c \<or> c = CHR ''%''
    \<or> (48 \<le> (of_char c :: nat) \<and> (of_char c :: nat) \<le> 57)
    \<or> (65 \<le> (of_char c :: nat) \<and> (of_char c :: nat) \<le> 70)"
proof -
  from assms obtain x where "c \<in> set (percent x)" by (auto simp: encodeURIComponent_def)
  then show ?thesis by (rule percent_chars)
qed

lemma encoded_no_query:
  "CHR ''?'' \<notin> set (encodeURIComponent s) \<and> CHR ''&'' \<notin> set (encodeURIComponent s)
   \<and> CHR ''='' \<notin> set (encodeURIComponent s)"
  using encoded_chars[of "CHR ''?''" s] encoded_chars[of "CHR ''&''" s] encoded_chars[of "CHR ''=''" s]
  by (auto simp: unreserved_def)

lemma deleteVariable_requests:
  "requests (trace (snd (deleteVariable cfg remote k w))) = requests (trace w) @ [variable_request cfg k]"
  by (simp add: deleteVariable_def fetch_eq trace_emit requests_append issued_emit
      split: fetch_result.splits)

lemma delete_all_requests:
  "requests (trace (snd (delete_all cfg remote vs w))) =
     requests (trace w) @ map (\<lambda>v. variable_request cfg (key v)) vs"
  by (induction vs arbitrary: w) (simp_all add: deleteVariable_requests case_prod_unfold)

text \<open>
  C10. For the listed variables \<open>vs\<close> the script sends one DELETE for each, and the
  request for a variable is built from its key alone: the address of the project's
  variables, a slash and the encoded key, with no body. The encoded key holds none of
  \<open>?\<close>, \<open>&\<close> and \<open>=\<close>, so the address carries no parameter, and none for the environment
  scope. Changing the scope of a variable leaves its request as it is, while the list
  request names the environment.
\<close>

theorem delete_request_is_built_from_the_key_alone:
  "requests (trace (snd (delete_all cfg remote vs w))) =
     requests (trace w) @ map (\<lambda>v. variable_request cfg (key v)) vs
   \<and> variable_request cfg (key (v\<lparr>environment_scope := s\<rparr>)) = variable_request cfg (key v)
   \<and> meth (variable_request cfg k) = DELETE
   \<and> url (variable_request cfg k) = variables_url cfg @ ''/'' @ encodeURIComponent k
   \<and> body (variable_request cfg k) = None
   \<and> CHR ''?'' \<notin> set (encodeURIComponent k) \<and> CHR ''&'' \<notin> set (encodeURIComponent k)
   \<and> CHR ''='' \<notin> set (encodeURIComponent k)
   \<and> url (variables_request cfg page) =
       variables_url cfg @ ''?scope=environment&environment_scope='' @ GITLAB_ENVIRONMENT cfg
         @ ''&page='' @ show_nat page @ ''&per_page='' @ show_nat 100"
  using encoded_no_query[of k]
  by (simp add: delete_all_requests variable_request_def variables_request_def variables_url_def)

section \<open>remove-pipelines: listing and deleting\<close>

lemma steps_append: "steps (xs @ ys) = steps xs @ steps ys"
  by (induction xs rule: steps.induct) simp_all

lemma fetchPipelines_lists:
  assumes "lists (remote (issued w) (pipelines_request cfg page)) ps"
  shows "fetchPipelines cfg remote page w =
     (Inr ps, \<lparr>issued = Suc (issued w),
               trace = trace w @ [Call (pipelines_request cfg page)
                                    (remote (issued w) (pipelines_request cfg page))]\<rparr>)"
  using assms
  by (cases "remote (issued w) (pipelines_request cfg page)") (simp_all add: fetchPipelines_def fetch_eq)

lemma deletePipeline_ok:
  assumes "answered_ok (remote (issued w) (pipeline_request cfg i))"
  shows "deletePipeline cfg remote i w =
     (Inr (), \<lparr>issued = Suc (issued w),
               trace = trace w @ [Call (pipeline_request cfg i) (remote (issued w) (pipeline_request cfg i)),
                                  Log (DeletedPipeline i)]\<rparr>)"
  using assms
  by (cases "remote (issued w) (pipeline_request cfg i)")
     (auto simp: deletePipeline_def fetch_eq emit_def)

lemma deletePipeline_error:
  assumes "\<not> answered_ok (remote (issued w) (pipeline_request cfg i))"
  shows "\<exists>e. deletePipeline cfg remote i w =
     (Inl e, \<lparr>issued = Suc (issued w),
              trace = trace w @ [Call (pipeline_request cfg i) (remote (issued w) (pipeline_request cfg i)),
                                 Err (ErrorDeletingPipeline i e)]\<rparr>)"
  using assms
  by (cases "remote (issued w) (pipeline_request cfg i)")
     (auto simp: deletePipeline_def fetch_eq emit_def split: option.splits)

lemma delete_each_all_ok:
  assumes "\<forall>n. \<forall>p \<in> set ps. answered_ok (remote n (pipeline_request cfg (id p)))"
  shows "\<exists>w'. delete_each cfg remote ps t w = (Inr (t + length ps), w')
     \<and> steps (trace w') = steps (trace w) @ delete_steps cfg ps"
  using assms
proof (induction ps arbitrary: t w)
  case Nil
  then show ?case by (simp add: delete_steps_def)
next
  case (Cons p ps)
  let ?w1 = "sleep (DELAY_MS cfg) \<lparr>issued = Suc (issued w),
               trace = trace w @ [Call (pipeline_request cfg (id p)) (remote (issued w) (pipeline_request cfg (id p))),
                                  Log (DeletedPipeline (id p))]\<rparr>"
  from Cons.prems have rest: "\<forall>n. \<forall>p \<in> set ps. answered_ok (remote n (pipeline_request cfg (id p)))"
    by simp
  from Cons.IH[OF rest, of "Suc t" ?w1] obtain w' where
    w': "delete_each cfg remote ps (Suc t) ?w1 = (Inr (Suc t + length ps), w')"
    "steps (trace w') = steps (trace ?w1) @ delete_steps cfg ps" by blast
  have ok: "answered_ok (remote (issued w) (pipeline_request cfg (id p)))"
    using Cons.prems by simp
  show ?case
    using w' deletePipeline_ok[of remote w cfg "id p", OF ok]
    by (simp add: sleep_def emit_def steps_append delete_steps_def)
qed

lemma delete_each_first_failure:
  assumes "\<forall>n. \<forall>p \<in> set qs. answered_ok (remote n (pipeline_request cfg (id p)))"
    and "\<forall>n. \<not> answered_ok (remote n (pipeline_request cfg (id p)))"
  shows "\<exists>e w'. delete_each cfg remote (qs @ p # rest) t w = (Inl e, w')
     \<and> steps (trace w') = steps (trace w) @ delete_steps cfg qs @ [Request (pipeline_request cfg (id p))]"
  using assms(1)
proof (induction qs arbitrary: t w)
  case Nil
  from assms(2) have "\<not> answered_ok (remote (issued w) (pipeline_request cfg (id p)))" by simp
  from deletePipeline_error[of remote w cfg "id p", OF this] show ?case
    by (auto simp: delete_steps_def steps_append)
next
  case (Cons q qs)
  let ?w1 = "sleep (DELAY_MS cfg) \<lparr>issued = Suc (issued w),
               trace = trace w @ [Call (pipeline_request cfg (id q)) (remote (issued w) (pipeline_request cfg (id q))),
                                  Log (DeletedPipeline (id q))]\<rparr>"
  from Cons.prems have rest: "\<forall>n. \<forall>p \<in> set qs. answered_ok (remote n (pipeline_request cfg (id p)))"
    by simp
  from Cons.IH[OF rest, of "Suc t" ?w1] obtain e w' where
    w': "delete_each cfg remote (qs @ p # rest) (Suc t) ?w1 = (Inl e, w')"
    "steps (trace w') = steps (trace ?w1) @ delete_steps cfg qs @ [Request (pipeline_request cfg (id p))]"
    by blast
  have ok: "answered_ok (remote (issued w) (pipeline_request cfg (id q)))"
    using Cons.prems by simp
  show ?case
    using w' deletePipeline_ok[of remote w cfg "id q", OF ok]
    by (simp add: sleep_def emit_def steps_append delete_steps_def)
qed

lemma pages_prefix:
  assumes "serves cfg remote page pgs"
    and "\<forall>n. \<forall>p \<in> set (concat pgs). answered_ok (remote n (pipeline_request cfg (id p)))"
  shows "\<exists>w'. fetch_and_delete cfg remote page t w =
        fetch_and_delete cfg remote (page + length pgs) (t + length (concat pgs)) w'
     \<and> steps (trace w') = steps (trace w) @ pages_steps cfg page pgs"
  using assms
proof (induction pgs arbitrary: page t w)
  case Nil
  then show ?case by auto
next
  case (Cons pg pgs)
  let ?w0 = "emit (Log (FetchingPipelinesPage page)) w"
  let ?w1 = "\<lparr>issued = Suc (issued ?w0),
               trace = trace ?w0 @ [Call (pipelines_request cfg page)
                                    (remote (issued ?w0) (pipelines_request cfg page))]\<rparr>"
  let ?w2 = "emit (Log (FoundPipelines (length pg) page)) ?w1"
  from Cons.prems(1) have pg: "pg \<noteq> []" "lists (remote (issued ?w0) (pipelines_request cfg page)) pg"
    and sv: "serves cfg remote (Suc page) pgs" by simp_all
  from Cons.prems(2) have d1: "\<forall>n. \<forall>p \<in> set pg. answered_ok (remote n (pipeline_request cfg (id p)))"
    and d2: "\<forall>n. \<forall>p \<in> set (concat pgs). answered_ok (remote n (pipeline_request cfg (id p)))"
    by simp_all
  from delete_each_all_ok[OF d1, of t ?w2] obtain w3 where
    w3: "delete_each cfg remote pg t ?w2 = (Inr (t + length pg), w3)"
      "steps (trace w3) = steps (trace ?w2) @ delete_steps cfg pg" by blast
  from Cons.IH[OF sv d2, of "t + length pg" w3] obtain w' where
    w': "fetch_and_delete cfg remote (Suc page) (t + length pg) w3 =
        fetch_and_delete cfg remote (Suc page + length pgs) (t + length pg + length (concat pgs)) w'"
      "steps (trace w') = steps (trace w3) @ pages_steps cfg (Suc page) pgs" by blast
  have "fetch_and_delete cfg remote page t w = fetch_and_delete cfg remote (Suc page) (t + length pg) w3"
    by (subst fetch_and_delete.simps) (simp add: fetchPipelines_lists[of remote ?w0 cfg page pg, OF pg(2)] pg(1) w3(1))
  with w' show ?case
    by (auto simp: w3(2) trace_emit steps_append add.assoc intro!: exI[of _ w'])
qed


lemma failing_page_ends:
  assumes "lists (remote (issued w) (pipelines_request cfg page)) ps"
    and "i < length ps"
    and "\<forall>n. \<forall>p \<in> set (take i ps). answered_ok (remote n (pipeline_request cfg (id p)))"
    and "\<forall>n. \<not> answered_ok (remote n (pipeline_request cfg (id (ps ! i))))"
  shows "\<exists>e w'. fetch_and_delete cfg remote page t w = Some (Inl e, w')
     \<and> steps (trace w') = steps (trace w) @ Request (pipelines_request cfg page)
         # delete_steps cfg (take i ps) @ [Request (pipeline_request cfg (id (ps ! i)))]"
proof -
  let ?w0 = "emit (Log (FetchingPipelinesPage page)) w"
  let ?w1 = "\<lparr>issued = Suc (issued ?w0),
               trace = trace ?w0 @ [Call (pipelines_request cfg page)
                                    (remote (issued ?w0) (pipelines_request cfg page))]\<rparr>"
  let ?w2 = "emit (Log (FoundPipelines (length ps) page)) ?w1"
  have ps: "ps = take i ps @ ps ! i # drop (Suc i) ps"
    using assms(2) by (simp add: id_take_nth_drop)
  from delete_each_first_failure[OF assms(3) assms(4), of "drop (Suc i) ps" t ?w2] ps
  obtain e w' where w': "delete_each cfg remote ps t ?w2 = (Inl e, w')"
    "steps (trace w') = steps (trace ?w2) @ delete_steps cfg (take i ps)
        @ [Request (pipeline_request cfg (id (ps ! i)))]" by auto
  have l: "lists (remote (issued ?w0) (pipelines_request cfg page)) ps"
    using assms(1) by (simp add: issued_emit)
  have ne: "ps \<noteq> []" using assms(2) by auto
  have "fetch_and_delete cfg remote page t w = Some (Inl e, w')"
    by (subst fetch_and_delete.simps)
       (simp add: fetchPipelines_lists[of remote ?w0 cfg page ps, OF l] ne w'(1))
  then show ?thesis
    using w'(2) by (simp add: trace_emit steps_append)
qed

lemma main_remove_pipelines_Inl:
  "fetch_and_delete cfg remote 1 0 (emit (Log (RemovingAllPipelines (GITLAB_PROJECT_ID cfg))) w)
     = Some (Inl e, w') \<Longrightarrow>
   main_remove_pipelines cfg remote w = Some (exit 1 (emit (Err (ErrorRemovingPipelines e)) w'))"
  by (simp add: main_remove_pipelines_def)

text \<open>
  C3 fails on the code. Against a project that holds exactly the pipelines 1 to 25, with
  \<open>BATCH_SIZE\<close> 20 and every deletion succeeding, the requests of the run are those of
  \<open>history25\<close>, so that every call of the run is answered by the project as the calls
  before it have left it. The run lists page 1, which has the pipelines 1 to 20, deletes
  them, and lists page 2 of the five pipelines that are left, which is empty: two list
  requests, answered with 20 and with 0 pipelines, and 20 deletions, one after the other
  and each followed by the pause of \<open>DELAY_MS\<close>. It reports 20 pipelines deleted and
  exits with status 0, and the pipelines 21 to 25 are still there.
\<close>

theorem five_of_twenty_five_pipelines_are_left:
  "map_option
       (\<lambda>r. (exit_code r, requests (events r) = history25,
             steps (events r) =
               Request (pipelines_request cfg0 1) # delete_steps cfg0 (numbered [1..<21])
                 @ [Request (pipelines_request cfg0 2)],
             filter (\<lambda>c. meth (fst c) = GET) (calls (events r)),
             length (filter (\<lambda>q. meth q = DELETE) (requests (events r))),
             last (events r)))
       (main_remove_pipelines cfg0 (live cfg0 [1..<26] history25) start)
     = Some (0, True, True,
             [(pipelines_request cfg0 1, page_of (numbered [1..<21])),
              (pipelines_request cfg0 2, page_of [])],
             20,
             Log (SuccessfullyDeletedPipelines 20 ''7''))
   \<and> serve cfg0 [1..<26] history25 = [21, 22, 23, 24, 25]"
  by code_simp

text \<open>
  C5, as the code has it. The pages \<open>pgs\<close> are listed and deleted without a failure; on
  the next page \<open>ps\<close> the deletions before position \<open>i\<close> succeed and the one at \<open>i\<close>
  fails. Then every pipeline up to that one is attempted, one after the other in the order
  listed, each successful deletion is followed by the pause of \<open>DELAY_MS\<close>, and the failed
  call is the last step of the run: no pause follows it, no later pipeline is attempted,
  no further page is listed, and the exit status is 1.
\<close>

theorem first_failed_deletion_ends_the_run:
  assumes "serves cfg remote 1 pgs"
    and "\<forall>n. lists (remote n (pipelines_request cfg (Suc (length pgs)))) ps"
    and "i < length ps"
    and "\<forall>n. \<forall>p \<in> set (concat pgs @ take i ps). answered_ok (remote n (pipeline_request cfg (id p)))"
    and "\<forall>n. \<not> answered_ok (remote n (pipeline_request cfg (id (ps ! i))))"
  shows "\<exists>r. main_remove_pipelines cfg remote w = Some r \<and> exit_code r = 1
     \<and> steps (events r) =
         steps (trace w) @ pages_steps cfg 1 pgs
           @ Request (pipelines_request cfg (Suc (length pgs))) # delete_steps cfg (take i ps)
           @ [Request (pipeline_request cfg (id (ps ! i)))]"
proof -
  let ?w0 = "emit (Log (RemovingAllPipelines (GITLAB_PROJECT_ID cfg))) w"
  from assms(4) have d1: "\<forall>n. \<forall>p \<in> set (concat pgs). answered_ok (remote n (pipeline_request cfg (id p)))"
    and d2: "\<forall>n. \<forall>p \<in> set (take i ps). answered_ok (remote n (pipeline_request cfg (id p)))"
    by auto
  from pages_prefix[OF assms(1) d1, of 0 ?w0] obtain w1 where
    w1: "fetch_and_delete cfg remote 1 0 ?w0 =
           fetch_and_delete cfg remote (Suc (length pgs)) (length (concat pgs)) w1"
      "steps (trace w1) = steps (trace ?w0) @ pages_steps cfg 1 pgs" by auto
  from assms(2) have l: "lists (remote (issued w1) (pipelines_request cfg (Suc (length pgs)))) ps"
    by simp
  from failing_page_ends[of remote w1 cfg "Suc (length pgs)" ps i "length (concat pgs)",
      OF l assms(3) d2 assms(5)]
  obtain e w2 where
    w2: "fetch_and_delete cfg remote (Suc (length pgs)) (length (concat pgs)) w1 = Some (Inl e, w2)"
      "steps (trace w2) = steps (trace w1) @ Request (pipelines_request cfg (Suc (length pgs)))
         # delete_steps cfg (take i ps) @ [Request (pipeline_request cfg (id (ps ! i)))]"
    by blast
  show ?thesis
    using main_remove_pipelines_Inl[of cfg remote w e w2] w1 w2
    by (simp add: exit_def trace_emit steps_append)
qed

lemma pipeline_request_differs:
  "k < 22 \<Longrightarrow> pipeline_request cfg0 k \<noteq> pipeline_request cfg0 22"
proof -
  assume "k < 22"
  then have "k = 0 \<or> k = 1 \<or> k = 2 \<or> k = 3 \<or> k = 4 \<or> k = 5 \<or> k = 6 \<or> k = 7 \<or> k = 8 \<or> k = 9
    \<or> k = 10 \<or> k = 11 \<or> k = 12 \<or> k = 13 \<or> k = 14 \<or> k = 15 \<or> k = 16 \<or> k = 17 \<or> k = 18
    \<or> k = 19 \<or> k = 20 \<or> k = 21" by arith
  then show ?thesis
    by (elim disjE) (simp_all add: pipeline_request_def show_nat.simps digit_char_def)
qed

theorem first_failed_deletion_witness:
  "\<exists>r. main_remove_pipelines cfg0 remote22 start = Some r \<and> exit_code r = 1
     \<and> steps (events r) =
         Request (pipelines_request cfg0 1) # delete_steps cfg0 (numbered [1..<21])
           @ [Request (pipelines_request cfg0 2), Request (pipeline_request cfg0 21),
              Pause (DELAY_MS cfg0), Request (pipeline_request cfg0 22)]"
proof -
  have g: "meth (pipelines_request cfg0 k) = GET" "meth (pipeline_request cfg0 k) = DELETE" for k
    by (simp_all add: pipelines_request_def pipeline_request_def)
  have ne: "pipelines_request cfg0 k \<noteq> pipeline_request cfg0 22" for k
    by (simp add: pipelines_request_def pipeline_request_def)
  have r: "remote22 n (pipelines_request cfg0 k) = remote25 n (pipelines_request cfg0 k)" for n k
    by (simp add: remote22_def ne)
  have s: "serves cfg0 remote22 1 [numbered [1..<21]]"
    by (simp add: r remote25_def g page_of_def ok_def numbered_def)
  have "\<forall>n. lists (remote25 n (pipelines_request cfg0 2)) (numbered [21..<26])"
    by (simp add: remote25_def pipelines_request_def page_of_def ok_def cfg0_def show_nat.simps
        digit_char_def)
  then have p2: "\<forall>n. lists (remote22 n (pipelines_request cfg0 (Suc (length [numbered [1..<21]]))))
      (numbered [21..<26])"
    by (simp add: r numeral_2_eq_2)
  have i: "1 < length (numbered [21..<26])" by (simp add: numbered_def)
  have t: "set (concat [numbered [1..<21]] @ take 1 (numbered [21..<26])) \<subseteq> {p. id p < 22}"
    by (auto simp: numbered_def upt_rec[of 21] )
  have d: "\<forall>n. \<forall>p \<in> set (concat [numbered [1..<21]] @ take 1 (numbered [21..<26])).
      answered_ok (remote22 n (pipeline_request cfg0 (id p)))"
  proof (intro allI ballI)
    fix n p
    assume "p \<in> set (concat [numbered [1..<21]] @ take 1 (numbered [21..<26]))"
    with t have "id p < 22" by blast
    then show "answered_ok (remote22 n (pipeline_request cfg0 (id p)))"
      using pipeline_request_differs[of "id p"]
      by (simp add: remote22_def remote25_def g answer_def ok_def)
  qed
  have n22: "numbered [21..<26] ! 1 = \<lparr>id = 22\<rparr>"
    by (simp add: numbered_def upt_rec[of 21] upt_rec[of 22])
  have f: "\<forall>n. \<not> answered_ok (remote22 n (pipeline_request cfg0 (id (numbered [21..<26] ! 1))))"
    unfolding n22 by (simp add: remote22_def answer_def ok_def)
  have tk: "take 1 (numbered [21..<26]) = [\<lparr>id = 21\<rparr>]"
    by (simp add: numbered_def upt_rec[of 21])
  from first_failed_deletion_ends_the_run[OF s p2 i d f, of start]
  show ?thesis
    unfolding n22 tk by (simp add: start_def delete_steps_def numeral_2_eq_2)
qed

text \<open>
  C5 as stated fails where it has the pause follow a failed call: with pipelines 1, 2 and 3
  on the page and the deletion of 2 failing, the deletion of 1 is followed by the pause
  and the failed deletion of 2 is the last step of the run.
\<close>

theorem no_pause_after_the_failed_deletion:
  "map_option (\<lambda>r. (exit_code r, steps (events r))) (main_remove_pipelines cfg0 remote3 start)
     = Some (1, [Request (pipelines_request cfg0 1), Request (pipeline_request cfg0 1),
                 Pause 1000, Request (pipeline_request cfg0 2)])"
  by code_simp

section \<open>remove-env-vars: listing the variables\<close>

lemma list_all_butlast: "list_all P xs \<Longrightarrow> list_all P (butlast xs)"
  by (auto simp: list_all_iff dest: in_set_butlastD)

lemma fail_fast_append:
  "list_all good (calls e1) \<Longrightarrow> fail_fast e2 s \<Longrightarrow> fail_fast (e1 @ e2) s"
  by (auto simp: fail_fast_def calls_append butlast_append list_all_butlast)

lemma fail_fast_last:
  "fail_fast evs False \<Longrightarrow> calls evs \<noteq> [] \<and> \<not> good (last (calls evs))"
  by (cases "calls evs" rule: rev_cases) (auto simp: fail_fast_def)

lemma fetch_pages_fail_fast:
  assumes "fetch_pages cfg remote page acc w = Some y"
  shows "\<exists>evs. trace (snd y) = trace w @ evs \<and> fail_fast evs (\<not> isl (fst y))
     \<and> (isl (fst y) \<longrightarrow> projl (fst y) = cause (snd (last (calls evs))))"
  using assms
proof (induction cfg remote page acc w y rule: fetch_pages.raw_induct[rotated 1, consumes 1])
  case (1 f cfg remote page acc w y)
  let ?w0 = "emit (Log (FetchingPage page)) w"
  let ?q = "variables_request cfg page"
  let ?a = "remote (issued ?w0) ?q"
  let ?w1 = "\<lparr>issued = Suc (issued ?w0), trace = trace ?w0 @ [Call ?q ?a]\<rparr>"
  let ?one = "[Log (FetchingPage page), Call ?q ?a]"
  have tr: "trace ?w1 = trace w @ ?one"
    by (simp add: trace_emit)
  have g: "meth ?q = GET" by (simp add: variables_request_def)
  show ?case
  proof (cases "good (?q, ?a)")
    case False
    then have "y = (Inl (cause ?a), ?w1)"
      using 1(2) g by (cases ?a) (auto simp: fetch_eq split: if_splits option.splits)
    then show ?thesis
      using False by (auto simp: trace_emit fail_fast_def intro!: exI[of _ ?one])
  next
    case True
    then obtain r vs where a: "?a = Response r" "ok r" "json r = Some vs"
      using g by (cases ?a) auto
    let ?more = "(case parseInt (case x_total_pages r of None \<Rightarrow> ''1''
                                  | Some h \<Rightarrow> if h = [] then ''1'' else h) of
                    None \<Rightarrow> False | Some totalPages \<Rightarrow> int page < totalPages)"
    have body: "(if ?more then f cfg remote (page + 1) (acc @ vs) ?w1
                 else Some (Inr (acc @ vs), ?w1)) = Some y"
      using 1(2) a
      by (cases "parseInt (case x_total_pages r of None \<Rightarrow> ''1''
                           | Some h \<Rightarrow> if h = [] then ''1'' else h)")
         (auto simp: fetch_eq split: if_splits)
    show ?thesis
    proof (cases ?more)
      case False
      then have "y = (Inr (acc @ vs), ?w1)"
        using body by simp
      then show ?thesis
        using True by (auto simp: trace_emit fail_fast_def intro!: exI[of _ ?one])
    next
      case more: True
      then have "f cfg remote (page + 1) (acc @ vs) ?w1 = Some y" using body by simp
      from 1(1)[OF this] obtain evs where
        evs: "trace (snd y) = trace ?w1 @ evs" "fail_fast evs (\<not> isl (fst y))"
          "isl (fst y) \<longrightarrow> projl (fst y) = cause (snd (last (calls evs)))" by blast
      have 1: "trace (snd y) = trace w @ (?one @ evs)" using evs(1) tr by simp
      have 2: "fail_fast (?one @ evs) (\<not> isl (fst y))"
        using True evs(2) by (intro fail_fast_append) simp_all
      have 3: "isl (fst y) \<longrightarrow> projl (fst y) = cause (snd (last (calls (?one @ evs))))"
        using evs(3) fail_fast_last[of evs] evs(2) by (auto simp: calls_append)
      from 1 2 3 show ?thesis by blast
    qed
  qed
qed

lemma page_count_covers: "0 < P \<Longrightarrow> N \<le> page_count P N * P"
proof -
  assume P: "0 < P"
  have "(N + P - 1) mod P < P" using P by simp
  moreover have "(N + P - 1) div P * P + (N + P - 1) mod P = N + P - 1" by simp
  ultimately show ?thesis using P unfolding page_count_def by arith
qed

lemma take_slice: "1 \<le> k \<Longrightarrow> take ((k - 1) * P) xs @ slice P xs k = take (k * P) xs"
proof -
  assume "1 \<le> k"
  then have "k * P = (k - 1) * P + P" by (cases k) simp_all
  then show ?thesis by (simp add: slice_def take_add)
qed

lemma fetch_pages_step:
  assumes "remote (issued w) (variables_request cfg k) = Response r" "ok r" "json r = Some vs"
    "x_total_pages r = Some h" "h \<noteq> []" "parseInt h = Some (int T)"
  shows "fetch_pages cfg remote k acc w =
     (if k < T
      then fetch_pages cfg remote (k + 1) (acc @ vs)
             \<lparr>issued = Suc (issued w),
              trace = trace w @ [Log (FetchingPage k), Call (variables_request cfg k) (Response r)]\<rparr>
      else Some (Inr (acc @ vs),
             \<lparr>issued = Suc (issued w),
              trace = trace w @ [Log (FetchingPage k), Call (variables_request cfg k) (Response r)]\<rparr>))"
  by (subst fetch_pages.simps) (simp add: fetch_eq issued_emit trace_emit assms)

lemma pages_from:
  assumes P: "0 < P"
    and H: "\<forall>n k. 1 \<le> k \<and> k \<le> max 1 (page_count P (length xs)) \<longrightarrow>
               lists (remote n (variables_request cfg k)) (slice P xs k)
               \<and> announces (remote n (variables_request cfg k)) (page_count P (length xs))"
    and k: "1 \<le> k" "k \<le> max 1 (page_count P (length xs))"
  shows "\<exists>w'. fetch_pages cfg remote k (take ((k - 1) * P) xs) w = Some (Inr xs, w')
     \<and> requests (trace w') =
         requests (trace w) @ map (variables_request cfg) [k..<Suc (max 1 (page_count P (length xs)))]"
  using k
proof (induction "max 1 (page_count P (length xs)) - k" arbitrary: k w)
  case 0
  let ?T = "page_count P (length xs)"
  from 0 have kT: "k = max 1 ?T" by simp
  from H 0(2) kT have "lists (remote (issued w) (variables_request cfg k)) (slice P xs k)"
    "announces (remote (issued w) (variables_request cfg k)) ?T" by simp_all
  then obtain r h where r: "remote (issued w) (variables_request cfg k) = Response r" "ok r"
    "json r = Some (slice P xs k)" "x_total_pages r = Some h" "h \<noteq> []" "parseInt h = Some (int ?T)"
    by (cases "remote (issued w) (variables_request cfg k)") (auto split: option.splits)
  have "length xs \<le> k * P"
    using page_count_covers[OF P, of "length xs"] kT
    by (metis le_trans max.cobounded2 mult_le_mono1)
  then have all: "take (k * P) xs = xs" by simp
  have "\<not> k < ?T" using kT by simp
  then show ?case
    using fetch_pages_step[where remote = remote and w = w and acc = "take ((k - 1) * P) xs", OF r] take_slice[OF 0(2), of P xs] all kT
    by (simp add: requests_append)
next
  case (Suc d)
  let ?T = "page_count P (length xs)"
  from Suc(2,3,4) have kT: "k < ?T" by simp
  from H Suc(3) kT have "lists (remote (issued w) (variables_request cfg k)) (slice P xs k)"
    "announces (remote (issued w) (variables_request cfg k)) ?T" by simp_all
  then obtain r h where r: "remote (issued w) (variables_request cfg k) = Response r" "ok r"
    "json r = Some (slice P xs k)" "x_total_pages r = Some h" "h \<noteq> []" "parseInt h = Some (int ?T)"
    by (cases "remote (issued w) (variables_request cfg k)") (auto split: option.splits)
  let ?w1 = "\<lparr>issued = Suc (issued w),
              trace = trace w @ [Log (FetchingPage k), Call (variables_request cfg k) (Response r)]\<rparr>"
  have d: "d = max 1 ?T - (k + 1)" using Suc(2) by simp
  have k1: "1 \<le> k + 1" "k + 1 \<le> max 1 ?T" using kT by simp_all
  from Suc(1)[OF d k1, of ?w1] obtain w' where
    w': "fetch_pages cfg remote (k + 1) (take (k * P) xs) ?w1 = Some (Inr xs, w')"
      "requests (trace w') = requests (trace ?w1) @ map (variables_request cfg) [k + 1..<Suc (max 1 ?T)]"
    by auto
  have up: "[k..<Suc (max 1 ?T)] = k # [k + 1..<Suc (max 1 ?T)]"
    using k1 by (simp add: upt_conv_Cons)
  show ?case
    using fetch_pages_step[where remote = remote and w = w and acc = "take ((k - 1) * P) xs", OF r] take_slice[OF Suc(3), of P xs] kT w'
    by (simp add: requests_append upt_conv_Cons[of k] del: upt_Suc)
qed

lemma concat_slices: "concat (map (slice P xs) [1..<Suc k]) = take (k * P) xs"
proof (induction k)
  case 0
  then show ?case by simp
next
  case (Suc k)
  have u: "[1..<Suc (Suc k)] = [1..<Suc k] @ [Suc k]" by simp
  have e: "Suc k * P = k * P + P" by simp
  have s: "slice P xs (Suc k) = take P (drop (k * P) xs)" by (simp add: slice_def)
  show ?case
    unfolding u e take_add[of "k * P" P xs] using Suc s by simp
qed

lemma fail_fast_bad_call:
  assumes "fail_fast evs s" and "c \<in> set (calls evs)" and "\<not> good c"
  shows "\<not> s \<and> last (calls evs) = c"
proof (cases "calls evs" rule: rev_cases)
  case Nil
  with assms(2) show ?thesis by simp
next
  case (snoc cs l)
  with assms show ?thesis by (auto simp: fail_fast_def list_all_iff)
qed

lemma fetchEnvironmentVariables_fail_fast:
  assumes "fetchEnvironmentVariables cfg remote w = Some (res, w')"
  shows "\<exists>evs. trace w' = trace w @ evs \<and> fail_fast evs (\<not> isl res)
     \<and> (isl res \<longrightarrow> projl res = cause (snd (last (calls evs))))"
proof -
  let ?w0 = "emit (Log (FetchingVariables (GITLAB_ENVIRONMENT cfg))) w"
  from assms obtain y where y: "fetch_pages cfg remote 1 [] ?w0 = Some y"
    by (auto simp: fetchEnvironmentVariables_def split: option.splits)
  from fetch_pages_fail_fast[OF y] obtain evs where
    evs: "trace (snd y) = trace ?w0 @ evs" "fail_fast evs (\<not> isl (fst y))"
      "isl (fst y) \<longrightarrow> projl (fst y) = cause (snd (last (calls evs)))" by blast
  obtain l where res: "fst y = res" "trace w' = trace (snd y) @ [l]" "calls [l] = []"
    using assms y
    by (cases y; cases "fst y") (auto simp: fetchEnvironmentVariables_def trace_emit)
  let ?evs = "Log (FetchingVariables (GITLAB_ENVIRONMENT cfg)) # evs @ [l]"
  have c: "calls ?evs = calls evs" using res(3) by (simp add: calls_append)
  have "trace w' = trace w @ ?evs" using res(2) evs(1) by (simp add: trace_emit)
  moreover have "fail_fast ?evs (\<not> isl res)"
    using evs(2) res(1) c by (simp add: fail_fast_def)
  moreover have "isl res \<longrightarrow> projl res = cause (snd (last (calls ?evs)))"
    using evs(3) res(1) c by simp
  ultimately show ?thesis by blast
qed

text \<open>
  C6. The remote holds the items \<open>xs\<close> in pages of size \<open>P\<close>: it answers the request for
  page \<open>k\<close> with that page and announces the number of pages in \<open>x-total-pages\<close>. Then
  \<open>fetchEnvironmentVariables\<close> returns \<open>xs\<close> itself, which is its pages one after the
  other; it asks for the pages 1, 2, ... up to the last, and for page 1 alone when there is
  no item.
\<close>

theorem lister_returns_every_item_in_order:
  assumes "0 < P"
    and "\<forall>n k. 1 \<le> k \<and> k \<le> max 1 (page_count P (length xs)) \<longrightarrow>
           lists (remote n (variables_request cfg k)) (slice P xs k)
           \<and> announces (remote n (variables_request cfg k)) (page_count P (length xs))"
  shows "\<exists>w'. fetchEnvironmentVariables cfg remote w = Some (Inr xs, w')
     \<and> requests (trace w') =
         requests (trace w) @ map (variables_request cfg) [1..<Suc (max 1 (page_count P (length xs)))]
     \<and> (xs = [] \<longrightarrow> requests (trace w') = requests (trace w) @ [variables_request cfg 1])
     \<and> xs = concat (map (slice P xs) [1..<Suc (page_count P (length xs))])"
proof -
  let ?w0 = "emit (Log (FetchingVariables (GITLAB_ENVIRONMENT cfg))) w"
  from pages_from[OF assms(1) assms(2), of 1 ?w0] obtain w1 where
    w1: "fetch_pages cfg remote 1 [] ?w0 = Some (Inr xs, w1)"
      "requests (trace w1) =
         requests (trace ?w0) @ map (variables_request cfg) [1..<Suc (max 1 (page_count P (length xs)))]"
    by auto
  have none: "xs = [] \<Longrightarrow> page_count P (length xs) = 0"
    using assms(1) by (simp add: page_count_def)
  have all: "xs = concat (map (slice P xs) [1..<Suc (page_count P (length xs))])"
    using page_count_covers[OF assms(1), of "length xs"]
    unfolding concat_slices[of P xs "page_count P (length xs)"] by simp
  let ?w2 = "emit (Log (FoundVariables (length xs) (GITLAB_ENVIRONMENT cfg))) w1"
  have one: "xs = [] \<Longrightarrow> [1..<Suc (max 1 (page_count P (length xs)))] = [1]"
    using none by simp
  have run: "fetchEnvironmentVariables cfg remote w = Some (Inr xs, ?w2)"
    using w1(1) by (simp add: fetchEnvironmentVariables_def)
  have rq: "requests (trace ?w2) =
      requests (trace w) @ map (variables_request cfg) [1..<Suc (max 1 (page_count P (length xs)))]"
    using w1(2) by (simp add: trace_emit requests_append del: upt_Suc)
  have "xs = [] \<longrightarrow> requests (trace ?w2) = requests (trace w) @ [variables_request cfg 1]"
    unfolding rq using one by simp
  with run rq all show ?thesis by blast
qed

lemma parseInt_2: "parseInt ''2'' = Some 2"
  by code_simp

lemma variables_request_1_2: "variables_request cfg0 1 \<noteq> variables_request cfg0 2"
  by (simp add: variables_request_def show_nat.simps digit_char_def)

theorem lister_witness:
  "\<exists>w'. fetchEnvironmentVariables cfg0 remote_vars start = Some (Inr [var ''A'', var ''B'', var ''C''], w')
     \<and> requests (trace w') = [variables_request cfg0 1, variables_request cfg0 2]"
proof -
  have T: "page_count 2 (length [var ''A'', var ''B'', var ''C'']) = 2"
    by (simp add: page_count_def)
  have g: "meth (variables_request cfg0 k) = GET" for k
    by (simp add: variables_request_def)
  have two: "show_nat 2 = ''2''" by code_simp
  have H: "\<forall>n k. 1 \<le> k \<and> k \<le> max 1 (page_count 2 (length [var ''A'', var ''B'', var ''C''])) \<longrightarrow>
      lists (remote_vars n (variables_request cfg0 k)) (slice 2 [var ''A'', var ''B'', var ''C''] k)
      \<and> announces (remote_vars n (variables_request cfg0 k))
           (page_count 2 (length [var ''A'', var ''B'', var ''C'']))"
  proof (intro allI impI)
    fix n k :: nat
    assume "1 \<le> k \<and> k \<le> max 1 (page_count 2 (length [var ''A'', var ''B'', var ''C'']))"
    then have "k = 1 \<or> k = 2" unfolding T by auto
    then show "lists (remote_vars n (variables_request cfg0 k)) (slice 2 [var ''A'', var ''B'', var ''C''] k)
      \<and> announces (remote_vars n (variables_request cfg0 k))
           (page_count 2 (length [var ''A'', var ''B'', var ''C'']))"
      unfolding T using variables_request_1_2
      by (auto simp: remote_vars_def g paged_def two ok_def slice_def parseInt_2)
  qed
  from lister_returns_every_item_in_order[of 2 "[var ''A'', var ''B'', var ''C'']" remote_vars cfg0 start, OF _ H]
  show ?thesis
    unfolding T by (auto simp: start_def numeral_2_eq_2)
qed

section \<open>The parallel batches and their summaries\<close>

lemma failed_to_set_append: "failed_to_set (xs @ ys) = failed_to_set xs @ failed_to_set ys"
  by (induction xs rule: failed_to_set.induct) simp_all

lemma failures_append: "failures (xs @ ys) = failures xs @ failures ys"
  by (simp add: failures_def calls_append)

lemma deleteVariable_shape:
  "\<exists>l. deleteVariable cfg remote k w =
     ((if answered_ok (remote (issued w) (variable_request cfg k)) then Inr ()
       else Inl (case remote (issued w) (variable_request cfg k) of Rejected \<Rightarrow> NetworkError
                 | Response r \<Rightarrow> Failed ToDelete (status r))),
      \<lparr>issued = Suc (issued w),
       trace = trace w @ [Log (DeletingVariable k),
                          Call (variable_request cfg k) (remote (issued w) (variable_request cfg k)), l]\<rparr>)
     \<and> calls [l] = []"
  by (cases "remote (issued w) (variable_request cfg k)")
     (auto simp: deleteVariable_def fetch_eq emit_def)

lemma good_delete: "good (variable_request cfg k, a) = answered_ok a"
  by (cases a) (simp_all add: variable_request_def)

lemma delete_all_results:
  "\<exists>evs. trace (snd (delete_all cfg remote vs w)) = trace w @ evs
     \<and> requests evs = map (\<lambda>v. variable_request cfg (key v)) vs
     \<and> length (filter rejected (fst (delete_all cfg remote vs w))) = length (failures evs)
     \<and> length (filter fulfilled (fst (delete_all cfg remote vs w))) = length vs - length (failures evs)
     \<and> length (failures evs) \<le> length vs"
proof (induction vs arbitrary: w)
  case Nil
  then show ?case by (simp add: failures_def)
next
  case (Cons v vs)
  let ?a = "remote (issued w) (variable_request cfg (key v))"
  from deleteVariable_shape[of cfg remote "key v" w] obtain l where
    d: "deleteVariable cfg remote (key v) w =
       ((if answered_ok ?a then Inr ()
         else Inl (case ?a of Rejected \<Rightarrow> NetworkError | Response r \<Rightarrow> Failed ToDelete (status r))),
        \<lparr>issued = Suc (issued w),
         trace = trace w @ [Log (DeletingVariable (key v)), Call (variable_request cfg (key v)) ?a, l]\<rparr>)"
      and l: "calls [l] = []" by blast
  let ?w1 = "\<lparr>issued = Suc (issued w),
         trace = trace w @ [Log (DeletingVariable (key v)), Call (variable_request cfg (key v)) ?a, l]\<rparr>"
  let ?one = "[Log (DeletingVariable (key v)), Call (variable_request cfg (key v)) ?a, l]"
  from Cons.IH[of ?w1] obtain evs where
    evs: "trace (snd (delete_all cfg remote vs ?w1)) = trace ?w1 @ evs"
      "requests evs = map (\<lambda>v. variable_request cfg (key v)) vs"
      "length (filter rejected (fst (delete_all cfg remote vs ?w1))) = length (failures evs)"
      "length (filter fulfilled (fst (delete_all cfg remote vs ?w1))) = length vs - length (failures evs)"
      "length (failures evs) \<le> length vs"
    by blast
  have rq: "requests [l] = []" using l by (cases l) simp_all
  have f1: "failures ?one = (if answered_ok ?a then [] else [(variable_request cfg (key v), ?a)])"
    using l by (cases l) (simp_all add: failures_def good_delete)
  have run: "delete_all cfg remote (v # vs) w =
      (fst (deleteVariable cfg remote (key v) w) # fst (delete_all cfg remote vs ?w1),
       snd (delete_all cfg remote vs ?w1))"
    by (simp add: d case_prod_unfold)
  have fa: "length (failures (?one @ evs)) = (if answered_ok ?a then 0 else 1) + length (failures evs)"
    unfolding failures_append f1 by simp
  have 1: "trace (snd (delete_all cfg remote (v # vs) w)) = trace w @ (?one @ evs)"
    unfolding run using evs(1) by simp
  have 2: "requests (?one @ evs) = map (\<lambda>v. variable_request cfg (key v)) (v # vs)"
    unfolding requests_append using evs(2) rq by (cases l) simp_all
  have 3: "length (filter rejected (fst (delete_all cfg remote (v # vs) w))) = length (failures (?one @ evs))"
    unfolding run fa using evs(3) by (simp add: d)
  have 4: "length (filter fulfilled (fst (delete_all cfg remote (v # vs) w))) =
      length (v # vs) - length (failures (?one @ evs))"
    unfolding run fa using evs(4,5) by (simp add: d Suc_diff_le)
  have 5: "length (failures (?one @ evs)) \<le> length (v # vs)"
    unfolding fa using evs(5) by simp
  from 1 2 3 4 5 show ?case by blast
qed

lemma setGitLabVariable_puts:
  "filter (\<lambda>q. meth q = PUT) (requests (trace (snd (setGitLabVariable cfg remote k v w)))) =
     filter (\<lambda>q. meth q = PUT) (requests (trace w)) @ [update_request cfg k v]"
  by (simp add: setGitLabVariable_def fetch_eq setting_failed_def emit_def requests_append
      update_request_def create_request_def split: fetch_result.splits option.splits)

lemma set_each_puts:
  "filter (\<lambda>q. meth q = PUT) (requests (trace (snd (set_each cfg remote es c w)))) =
     filter (\<lambda>q. meth q = PUT) (requests (trace w)) @
       map (\<lambda>(k, v). update_request cfg k (String v)) (filter (\<lambda>(k, v). primitive v) es)"
proof (induction es arbitrary: c w)
  case Nil
  then show ?case by simp
next
  case (Cons a es)
  obtain k v where a: "a = (k, v)" by (cases a)
  show ?case
    using setGitLabVariable_puts[of cfg remote k "String v" w]
    by (auto simp: a primitive_def Cons.IH trace_emit requests_append
        split: prod.splits sum.splits)
qed

lemma start_log:
  "requests (trace (emit (Log l) start)) = []" "failed_to_set (trace (emit (Log l) start)) = []"
  by (simp_all add: trace_emit start_def)

lemma console_append: "console (xs @ ys) = console xs @ console ys"
  by (induction xs rule: console.induct) simp_all

lemma setGitLabVariable_outcome:
  "\<exists>evs. trace (snd (setGitLabVariable cfg remote k v w)) = trace w @ evs
     \<and> list_all per_key (console evs) \<and> failed_to_set evs = []
     \<and> (if not_found (remote (issued w) (update_request cfg k v))
        then issued (snd (setGitLabVariable cfg remote k v w)) = Suc (Suc (issued w))
           \<and> (\<not> isl (fst (setGitLabVariable cfg remote k v w)))
               = answered_ok (remote (Suc (issued w)) (create_request cfg k v))
        else issued (snd (setGitLabVariable cfg remote k v w)) = Suc (issued w)
           \<and> (\<not> isl (fst (setGitLabVariable cfg remote k v w)))
               = answered_ok (remote (issued w) (update_request cfg k v)))"
proof (cases "remote (issued w) (update_request cfg k v)")
  case Rejected
  then show ?thesis
    by (simp add: setGitLabVariable_def fetch_eq setting_failed_def emit_def)
next
  case (Response r)
  show ?thesis
  proof (cases "status r = 404")
    case True
    show ?thesis
    proof (cases "remote (Suc (issued w)) (create_request cfg k v)")
      case Rejected
      then show ?thesis using True Response
        by (simp add: setGitLabVariable_def fetch_eq setting_failed_def emit_def)
    next
      case (Response r2)
      then show ?thesis using True \<open>remote (issued w) (update_request cfg k v) = Response r\<close>
        by (cases "json r2") (simp_all add: setGitLabVariable_def fetch_eq setting_failed_def emit_def)
    qed
  next
    case False
    then show ?thesis using Response
      by (cases "json r") (simp_all add: setGitLabVariable_def fetch_eq setting_failed_def emit_def)
  qed
qed

lemma set_each_outcomes:
  "\<exists>evs. trace (snd (set_each cfg remote es c w)) = trace w @ evs
     \<and> list_all per_key (console evs)
     \<and> fst (set_each cfg remote es c w) = c + length (filter snd (outcomes cfg remote es (issued w)))
     \<and> failed_to_set evs = map fst (filter (\<lambda>x. \<not> snd x) (outcomes cfg remote es (issued w)))"
proof (induction es arbitrary: c w)
  case Nil
  then show ?case by simp
next
  case (Cons a es)
  obtain k v where a: "a = (k, v)" by (cases a)
  show ?case
  proof (cases "primitive v")
    case False
    let ?w1 = "emit (Warn (SkippingNonPrimitive k)) w"
    from Cons.IH[of c ?w1] obtain evs where
      evs: "trace (snd (set_each cfg remote es c ?w1)) = trace ?w1 @ evs"
        "list_all per_key (console evs)"
        "fst (set_each cfg remote es c ?w1) = c + length (filter snd (outcomes cfg remote es (issued ?w1)))"
        "failed_to_set evs = map fst (filter (\<lambda>x. \<not> snd x) (outcomes cfg remote es (issued ?w1)))"
      by blast
    have run: "set_each cfg remote (a # es) c w = set_each cfg remote es c ?w1"
      using False by (simp add: a primitive_def)
    show ?thesis
      unfolding run using evs False
      by (intro exI[of _ "Warn (SkippingNonPrimitive k) # evs"])
         (simp add: a trace_emit issued_emit)
  next
    case True
    let ?s = "setGitLabVariable cfg remote k (String v) w"
    from setGitLabVariable_outcome[of cfg remote k "String v" w] obtain e1 where
      e1: "trace (snd ?s) = trace w @ e1" "list_all per_key (console e1)" "failed_to_set e1 = []"
        "if not_found (remote (issued w) (update_request cfg k (String v)))
         then issued (snd ?s) = Suc (Suc (issued w))
           \<and> (\<not> isl (fst ?s)) = answered_ok (remote (Suc (issued w)) (create_request cfg k (String v)))
         else issued (snd ?s) = Suc (issued w)
           \<and> (\<not> isl (fst ?s)) = answered_ok (remote (issued w) (update_request cfg k (String v)))"
      by blast
    obtain res w1 where s: "?s = (res, w1)" by (cases ?s)
    show ?thesis
    proof (cases res)
      case (Inr u)
      have run: "set_each cfg remote (a # es) c w = set_each cfg remote es (Suc c) w1"
        using True by (simp add: a primitive_def s Inr)
      from Cons.IH[of "Suc c" w1] obtain evs where
        evs: "trace (snd (set_each cfg remote es (Suc c) w1)) = trace w1 @ evs"
          "list_all per_key (console evs)"
          "fst (set_each cfg remote es (Suc c) w1) = Suc c + length (filter snd (outcomes cfg remote es (issued w1)))"
          "failed_to_set evs = map fst (filter (\<lambda>x. \<not> snd x) (outcomes cfg remote es (issued w1)))"
        by blast
      show ?thesis
        unfolding run using evs e1 True
        by (intro exI[of _ "e1 @ evs"])
           (auto simp: a s Inr console_append failed_to_set_append split: if_splits)
    next
      case (Inl e)
      let ?w2 = "emit (Err (FailedToSetVariable k e)) w1"
      have run: "set_each cfg remote (a # es) c w = set_each cfg remote es c ?w2"
        using True by (simp add: a primitive_def s Inl)
      from Cons.IH[of c ?w2] obtain evs where
        evs: "trace (snd (set_each cfg remote es c ?w2)) = trace ?w2 @ evs"
          "list_all per_key (console evs)"
          "fst (set_each cfg remote es c ?w2) = c + length (filter snd (outcomes cfg remote es (issued ?w2)))"
          "failed_to_set evs = map fst (filter (\<lambda>x. \<not> snd x) (outcomes cfg remote es (issued ?w2)))"
        by blast
      show ?thesis
        unfolding run using evs e1 True
        by (intro exI[of _ "e1 @ Err (FailedToSetVariable k e) # evs"])
           (auto simp: a s Inl console_append failed_to_set_append trace_emit issued_emit split: if_splits)
    qed
  qed
qed

lemma outcomes_keys:
  "map fst (outcomes cfg remote es n) = map fst (filter (\<lambda>(k, v). primitive v) es)"
  by (induction es arbitrary: n) (auto split: prod.splits)


lemma outcomes_count:
  "length (filter snd (outcomes cfg remote es n)) =
     length (filter (\<lambda>(k, v). primitive v) es) - length (filter (\<lambda>x. \<not> snd x) (outcomes cfg remote es n))"
proof -
  have "length (outcomes cfg remote es n) = length (filter (\<lambda>(k, v). primitive v) es)"
    using outcomes_keys[of cfg remote es n] by (metis length_map)
  moreover have "length (filter snd (outcomes cfg remote es n))
      + length (filter (\<lambda>x. \<not> snd x) (outcomes cfg remote es n)) = length (outcomes cfg remote es n)"
    by (rule sum_length_filter_compl)
  ultimately show ?thesis by simp
qed

lemma set_env_vars_outcomes:
  "(\<exists>mid. console (events (set_env_vars cfg (Text (Some (JObj es))) remote)) =
       Log (SettingVariables (GITLAB_PROJECT_ID cfg)) # mid @
         [Log (SuccessfullySet
                (length (filter (\<lambda>(k, v). primitive v) es)
                   - length (filter (\<lambda>x. \<not> snd x) (outcomes cfg remote es 0)))
                (ENV_FILE_PATH cfg))]
       \<and> list_all per_key mid)
   \<and> failed_to_set (events (set_env_vars cfg (Text (Some (JObj es))) remote)) =
       map fst (filter (\<lambda>x. \<not> snd x) (outcomes cfg remote es 0))"
proof -
  let ?w = "emit (Log (SettingVariables (GITLAB_PROJECT_ID cfg))) start"
  have i: "issued ?w = 0" by (simp add: issued_emit start_def)
  from set_each_outcomes[of cfg remote es 0 ?w] obtain evs where
    evs: "trace (snd (set_each cfg remote es 0 ?w)) = trace ?w @ evs"
      "list_all per_key (console evs)"
      "fst (set_each cfg remote es 0 ?w) = length (filter snd (outcomes cfg remote es 0))"
      "failed_to_set evs = map fst (filter (\<lambda>x. \<not> snd x) (outcomes cfg remote es 0))"
    unfolding i by auto
  obtain c w1 where r: "set_each cfg remote es 0 ?w = (c, w1)"
    by (cases "set_each cfg remote es 0 ?w")
  have ev: "events (set_env_vars cfg (Text (Some (JObj es))) remote) =
      Log (SettingVariables (GITLAB_PROJECT_ID cfg)) # evs @ [Log (SuccessfullySet c (ENV_FILE_PATH cfg))]"
  proof -
    have "trace w1 = Log (SettingVariables (GITLAB_PROJECT_ID cfg)) # evs"
      using evs(1) unfolding r by (simp add: trace_emit start_def)
    then show ?thesis
      by (simp add: set_env_vars_def main_set_env_vars_def r exit_def trace_emit)
  qed
  have c: "c = length (filter (\<lambda>(k, v). primitive v) es)
      - length (filter (\<lambda>x. \<not> snd x) (outcomes cfg remote es 0))"
    using evs(3) outcomes_count[of cfg remote es 0] by (simp add: r)
  show ?thesis
    unfolding ev using evs(2,4) c
    by (simp add: console_append failed_to_set_append)
qed

lemma outcomes_example:
  "outcomes cfg0 remote_B [(''A'', JStr ''1''), (''B'', JStr ''2''), (''N'', JNull)] 0
     = [(''A'', True), (''B'', False)]"
  by code_simp

text \<open>
  C4, as the code has it. In \<open>remove-env-vars\<close>, when the listing returned the variables
  \<open>vs\<close> and there is at least one, a DELETE is sent for every one of them whatever the
  answers to the others, and the summary prints the number of variables, the number
  deleted and the number failed: with \<open>K\<close> variables and \<open>F\<close> calls that failed, \<open>K\<close>,
  \<open>K - F\<close> and \<open>F\<close>. In \<open>set-env-vars\<close> an update is sent for every entry with a
  primitive value, whatever the answers to the others. Of these \<open>K\<close> entries, those that
  the answers of the remote make fail are \<open>F\<close>: the run prints its first line, then lines
  that are each about a single key, then as its last line the number of keys set, which is
  \<open>K - F\<close>; and the keys it reports as failed are those \<open>F\<close> keys, in the order of the
  document.
\<close>

theorem every_item_is_attempted_and_counted:
  "(fetchEnvironmentVariables cfg remote (emit (Log (StartingRemoval (GITLAB_ENVIRONMENT cfg))) start)
        = Some (Inr vs, w1) \<and> vs \<noteq> [] \<longrightarrow>
      (\<exists>r evs l. removeAllEnvironmentVariables cfg remote = Some r
         \<and> events r = trace w1 @ Log (PreparingToDelete (length vs)) # evs @
              [Log SummaryHeader, Log (TotalProcessed (length vs)),
               Log (SuccessfullyDeleted (length vs - length (failures evs))),
               Log (FailedToDelete (length (failures evs))), l]
         \<and> requests evs = map (\<lambda>v. variable_request cfg (key v)) vs
         \<and> length (failures evs) \<le> length vs))
   \<and> filter (\<lambda>q. meth q = PUT) (requests (events (set_env_vars cfg (Text (Some (JObj es))) sremote))) =
       map (\<lambda>(k, v). update_request cfg k (String v)) (filter (\<lambda>(k, v). primitive v) es)
   \<and> map fst (outcomes cfg sremote es 0) = map fst (filter (\<lambda>(k, v). primitive v) es)
   \<and> (\<exists>mid. console (events (set_env_vars cfg (Text (Some (JObj es))) sremote)) =
         Log (SettingVariables (GITLAB_PROJECT_ID cfg)) # mid @
           [Log (SuccessfullySet
                  (length (filter (\<lambda>(k, v). primitive v) es)
                     - length (filter (\<lambda>x. \<not> snd x) (outcomes cfg sremote es 0)))
                  (ENV_FILE_PATH cfg))]
         \<and> list_all per_key mid)
   \<and> failed_to_set (events (set_env_vars cfg (Text (Some (JObj es))) sremote)) =
       map fst (filter (\<lambda>x. \<not> snd x) (outcomes cfg sremote es 0))"
proof (intro conjI impI)
  assume "fetchEnvironmentVariables cfg remote (emit (Log (StartingRemoval (GITLAB_ENVIRONMENT cfg))) start)
        = Some (Inr vs, w1) \<and> vs \<noteq> []"
  then have l: "fetchEnvironmentVariables cfg remote
        (emit (Log (StartingRemoval (GITLAB_ENVIRONMENT cfg))) start) = Some (Inr vs, w1)"
    and ne: "vs \<noteq> []" by simp_all
  let ?w2 = "emit (Log (PreparingToDelete (length vs))) w1"
  from delete_all_results[of cfg remote vs ?w2] obtain evs where
    evs: "trace (snd (delete_all cfg remote vs ?w2)) = trace ?w2 @ evs"
     "requests evs = map (\<lambda>v. variable_request cfg (key v)) vs"
     "length (filter rejected (fst (delete_all cfg remote vs ?w2))) = length (failures evs)"
     "length (filter fulfilled (fst (delete_all cfg remote vs ?w2))) = length vs - length (failures evs)"
     "length (failures evs) \<le> length vs" by blast
  obtain rs w3 where d: "delete_all cfg remote vs ?w2 = (rs, w3)"
    by (cases "delete_all cfg remote vs ?w2")
  let ?l = "if 0 < length (failures evs) then Err SomeNotDeleted
            else Log (AllRemoved (GITLAB_ENVIRONMENT cfg))"
  have "\<exists>r. removeAllEnvironmentVariables cfg remote = Some r
         \<and> events r = trace w1 @ Log (PreparingToDelete (length vs)) # evs @
              [Log SummaryHeader, Log (TotalProcessed (length vs)),
               Log (SuccessfullyDeleted (length vs - length (failures evs))),
               Log (FailedToDelete (length (failures evs))), ?l]"
  proof -
    have z: "(filter rejected rs = []) = (failures evs = [])"
      using evs(3) by (simp add: d) (metis length_0_conv)
    show ?thesis
      using evs(1,3,4) ne z
      by (simp add: removeAllEnvironmentVariables_def l d Let_def exit_def trace_emit)
  qed
  with evs(2,5) show "\<exists>r evs l. removeAllEnvironmentVariables cfg remote = Some r
         \<and> events r = trace w1 @ Log (PreparingToDelete (length vs)) # evs @
              [Log SummaryHeader, Log (TotalProcessed (length vs)),
               Log (SuccessfullyDeleted (length vs - length (failures evs))),
               Log (FailedToDelete (length (failures evs))), l]
         \<and> requests evs = map (\<lambda>v. variable_request cfg (key v)) vs
         \<and> length (failures evs) \<le> length vs"
    by blast
next
  let ?w = "emit (Log (SettingVariables (GITLAB_PROJECT_ID cfg))) start"
  obtain c w1 where r: "set_each cfg sremote es 0 ?w = (c, w1)"
    by (cases "set_each cfg sremote es 0 ?w")
  have ev: "events (set_env_vars cfg (Text (Some (JObj es))) sremote) =
      trace w1 @ [Log (SuccessfullySet c (ENV_FILE_PATH cfg))]"
    by (simp add: set_env_vars_def main_set_env_vars_def r exit_def trace_emit)
  show "filter (\<lambda>q. meth q = PUT) (requests (events (set_env_vars cfg (Text (Some (JObj es))) sremote))) =
       map (\<lambda>(k, v). update_request cfg k (String v)) (filter (\<lambda>(k, v). primitive v) es)"
    using set_each_puts[of cfg sremote es 0 ?w] by (simp add: ev r requests_append start_log)
next
  show "map fst (outcomes cfg sremote es 0) = map fst (filter (\<lambda>(k, v). primitive v) es)"
    by (rule outcomes_keys)
next
  show "\<exists>mid. console (events (set_env_vars cfg (Text (Some (JObj es))) sremote)) =
         Log (SettingVariables (GITLAB_PROJECT_ID cfg)) # mid @
           [Log (SuccessfullySet
                  (length (filter (\<lambda>(k, v). primitive v) es)
                     - length (filter (\<lambda>x. \<not> snd x) (outcomes cfg sremote es 0)))
                  (ENV_FILE_PATH cfg))]
         \<and> list_all per_key mid"
    by (rule set_env_vars_outcomes[THEN conjunct1])
next
  show "failed_to_set (events (set_env_vars cfg (Text (Some (JObj es))) sremote)) =
       map fst (filter (\<lambda>x. \<not> snd x) (outcomes cfg sremote es 0))"
    by (rule set_env_vars_outcomes[THEN conjunct2])
qed

text \<open>
  C4 as stated fails for \<open>set-env-vars\<close>, whose last line counts the keys set and
  nothing else: with the keys A and B and the update of B failing, nothing the run prints
  reports two attempted or one failed. It also fails for \<open>remove-env-vars\<close> when there is
  no variable: the run ends before the summary.
\<close>

theorem summary_counts_successes_only:
  "console (events (set_env_vars cfg0 (Text (Some (JObj [(''A'', JStr ''1''), (''B'', JStr ''2'')]))) remote_B))
     = [Log (SettingVariables ''7''), Log (UpdatedVariable ''A''),
        Err (ErrorSettingVariable ''B'' (Failed ToUpdate 500)),
        Err (FailedToSetVariable ''B'' (Failed ToUpdate 500)),
        Log (SuccessfullySet 1 ''vars.json'')]
   \<and> map_option (\<lambda>r. console (events r)) (removeAllEnvironmentVariables cfg0 remote_empty)
     = Some [Log (StartingRemoval ''production''), Log (FetchingVariables ''production''),
             Log (FetchingPage 1), Log (FoundVariables 0 ''production''),
             Log (NoVariablesFound ''production'')]"
  by code_simp

lemma listing_of_remote_vars:
  "fetchEnvironmentVariables cfg0 remote_vars
       (emit (Log (StartingRemoval (GITLAB_ENVIRONMENT cfg0))) start) =
     Some (Inr [var ''A'', var ''B'', var ''C''],
           \<lparr>issued = 2,
            trace = [Log (StartingRemoval ''production''), Log (FetchingVariables ''production''),
                     Log (FetchingPage 1),
                     Call (variables_request cfg0 1) (paged 2 [var ''A'', var ''B'']),
                     Log (FetchingPage 2),
                     Call (variables_request cfg0 2) (paged 2 [var ''C'']),
                     Log (FoundVariables 3 ''production'')]\<rparr>)"
  by code_simp

theorem every_item_witness:
  "(\<exists>r evs l. removeAllEnvironmentVariables cfg0 remote_vars = Some r
       \<and> events r =
           [Log (StartingRemoval ''production''), Log (FetchingVariables ''production''),
            Log (FetchingPage 1),
            Call (variables_request cfg0 1) (paged 2 [var ''A'', var ''B'']),
            Log (FetchingPage 2),
            Call (variables_request cfg0 2) (paged 2 [var ''C'']),
            Log (FoundVariables 3 ''production'')]
           @ Log (PreparingToDelete (length [var ''A'', var ''B'', var ''C''])) # evs @
           [Log SummaryHeader, Log (TotalProcessed (length [var ''A'', var ''B'', var ''C''])),
            Log (SuccessfullyDeleted (length [var ''A'', var ''B'', var ''C''] - length (failures evs))),
            Log (FailedToDelete (length (failures evs))), l]
       \<and> requests evs = map (\<lambda>v. variable_request cfg0 (key v)) [var ''A'', var ''B'', var ''C'']
       \<and> length (failures evs) \<le> length [var ''A'', var ''B'', var ''C''])
   \<and> filter (\<lambda>q. meth q = PUT)
        (requests (events (set_env_vars cfg0
           (Text (Some (JObj [(''A'', JStr ''1''), (''B'', JStr ''2''), (''N'', JNull)]))) remote_B)))
       = [update_request cfg0 ''A'' ''1'', update_request cfg0 ''B'' ''2'']
   \<and> (\<exists>mid. console (events (set_env_vars cfg0
           (Text (Some (JObj [(''A'', JStr ''1''), (''B'', JStr ''2''), (''N'', JNull)]))) remote_B)) =
         Log (SettingVariables (GITLAB_PROJECT_ID cfg0)) # mid @
           [Log (SuccessfullySet 1 (ENV_FILE_PATH cfg0))]
         \<and> list_all per_key mid)
   \<and> failed_to_set (events (set_env_vars cfg0
           (Text (Some (JObj [(''A'', JStr ''1''), (''B'', JStr ''2''), (''N'', JNull)]))) remote_B))
       = [''B'']"
proof -
  let ?W = "\<lparr>issued = 2,
            trace = [Log (StartingRemoval ''production''), Log (FetchingVariables ''production''),
                     Log (FetchingPage 1),
                     Call (variables_request cfg0 1) (paged 2 [var ''A'', var ''B'']),
                     Log (FetchingPage 2),
                     Call (variables_request cfg0 2) (paged 2 [var ''C'']),
                     Log (FoundVariables 3 ''production'')]\<rparr> :: variable world"
  note t = every_item_is_attempted_and_counted[where cfg = cfg0 and remote = remote_vars
      and vs = "[var ''A'', var ''B'', var ''C'']" and ?w1.0 = ?W and sremote = remote_B
      and es = "[(''A'', JStr ''1''), (''B'', JStr ''2''), (''N'', JNull)]"]
  have h: "fetchEnvironmentVariables cfg0 remote_vars
       (emit (Log (StartingRemoval (GITLAB_ENVIRONMENT cfg0))) start) =
     Some (Inr [var ''A'', var ''B'', var ''C''], ?W) \<and> [var ''A'', var ''B'', var ''C''] \<noteq> []"
    using listing_of_remote_vars by simp
  from t[THEN conjunct1, rule_format, OF h] have 1:
    "\<exists>r evs l. removeAllEnvironmentVariables cfg0 remote_vars = Some r
       \<and> events r = trace ?W
           @ Log (PreparingToDelete (length [var ''A'', var ''B'', var ''C''])) # evs @
           [Log SummaryHeader, Log (TotalProcessed (length [var ''A'', var ''B'', var ''C''])),
            Log (SuccessfullyDeleted (length [var ''A'', var ''B'', var ''C''] - length (failures evs))),
            Log (FailedToDelete (length (failures evs))), l]
       \<and> requests evs = map (\<lambda>v. variable_request cfg0 (key v)) [var ''A'', var ''B'', var ''C'']
       \<and> length (failures evs) \<le> length [var ''A'', var ''B'', var ''C'']" .
  have 2: "filter (\<lambda>q. meth q = PUT)
        (requests (events (set_env_vars cfg0
           (Text (Some (JObj [(''A'', JStr ''1''), (''B'', JStr ''2''), (''N'', JNull)]))) remote_B)))
       = [update_request cfg0 ''A'' ''1'', update_request cfg0 ''B'' ''2'']"
    using t[THEN conjunct2, THEN conjunct1] by (simp add: primitive_def)
  have 3: "\<exists>mid. console (events (set_env_vars cfg0
           (Text (Some (JObj [(''A'', JStr ''1''), (''B'', JStr ''2''), (''N'', JNull)]))) remote_B)) =
         Log (SettingVariables (GITLAB_PROJECT_ID cfg0)) # mid @
           [Log (SuccessfullySet 1 (ENV_FILE_PATH cfg0))]
         \<and> list_all per_key mid"
    using t[THEN conjunct2, THEN conjunct2, THEN conjunct2, THEN conjunct1]
    unfolding outcomes_example by (simp add: primitive_def)
  have 4: "failed_to_set (events (set_env_vars cfg0
           (Text (Some (JObj [(''A'', JStr ''1''), (''B'', JStr ''2''), (''N'', JNull)]))) remote_B))
       = [''B'']"
    using t[THEN conjunct2, THEN conjunct2, THEN conjunct2, THEN conjunct2]
    unfolding outcomes_example by simp
  have tr: "trace ?W = [Log (StartingRemoval ''production''), Log (FetchingVariables ''production''),
                     Log (FetchingPage 1),
                     Call (variables_request cfg0 1) (paged 2 [var ''A'', var ''B'']),
                     Log (FetchingPage 2),
                     Call (variables_request cfg0 2) (paged 2 [var ''C'']),
                     Log (FoundVariables 3 ''production'')]" by simp
  from 1 2 3 4 show ?thesis unfolding tr by blast
qed

lemma remove_env_vars_example:
  "map_option (\<lambda>r. (exit_code r, drop 9 (console (events r))))
       (removeAllEnvironmentVariables cfg0 remote_vars) =
     Some (1, [Err (ErrorDeletingVariable ''B'' (Failed ToDelete 404)),
               Log (DeletingVariable ''C''), Log (DeletedVariable ''C''), Log SummaryHeader,
               Log (TotalProcessed 3), Log (SuccessfullyDeleted 2), Log (FailedToDelete 1),
               Err SomeNotDeleted])"
  by code_simp

section \<open>The exit status\<close>

lemma fail_fast_True: "fail_fast evs True = list_all good (calls evs)"
  by (auto simp: fail_fast_def list_all_butlast)

lemma good_pipeline_request: "good (pipeline_request cfg i, a) = answered_ok a"
  by (cases a) (simp_all add: pipeline_request_def)

lemma deletePipeline_fail_fast:
  "\<exists>evs. trace (snd (deletePipeline cfg remote i w)) = trace w @ evs
     \<and> fail_fast evs (\<not> isl (fst (deletePipeline cfg remote i w)))"
proof (cases "answered_ok (remote (issued w) (pipeline_request cfg i))")
  case True
  from deletePipeline_ok[of remote w cfg i, OF True] show ?thesis
    using True by (auto simp: fail_fast_def good_pipeline_request)
next
  case False
  from deletePipeline_error[of remote w cfg i, OF False] show ?thesis
    using False by (auto simp: fail_fast_def good_pipeline_request)
qed

lemma delete_each_fail_fast:
  "\<exists>evs. trace (snd (delete_each cfg remote ps t w)) = trace w @ evs
     \<and> fail_fast evs (\<not> isl (fst (delete_each cfg remote ps t w)))"
proof (induction ps arbitrary: t w)
  case Nil
  then show ?case by (simp add: fail_fast_def)
next
  case (Cons p ps)
  from deletePipeline_fail_fast[of cfg remote "id p" w] obtain e1 where
    e1: "trace (snd (deletePipeline cfg remote (id p) w)) = trace w @ e1"
      "fail_fast e1 (\<not> isl (fst (deletePipeline cfg remote (id p) w)))" by blast
  obtain res w1 where d: "deletePipeline cfg remote (id p) w = (res, w1)"
    by (cases "deletePipeline cfg remote (id p) w")
  have e1': "trace w1 = trace w @ e1" "fail_fast e1 (\<not> isl res)"
    using e1 by (simp_all add: d)
  show ?case
  proof (cases res)
    case (Inl e)
    then have run: "delete_each cfg remote (p # ps) t w = (Inl e, w1)" using d by simp
    show ?thesis unfolding run using e1' Inl by (intro exI[of _ e1]) simp
  next
    case (Inr u)
    let ?w2 = "sleep (DELAY_MS cfg) w1"
    from Cons.IH[of "Suc t" ?w2] obtain e2 where
      e2: "trace (snd (delete_each cfg remote ps (Suc t) ?w2)) = trace ?w2 @ e2"
        "fail_fast e2 (\<not> isl (fst (delete_each cfg remote ps (Suc t) ?w2)))" by blast
    have run: "delete_each cfg remote (p # ps) t w = delete_each cfg remote ps (Suc t) ?w2"
      using d Inr by simp
    have g: "list_all good (calls (e1 @ [Sleep (DELAY_MS cfg)]))"
      using e1'(2) Inr by (simp add: fail_fast_True calls_append)
    have "trace (snd (delete_each cfg remote (p # ps) t w)) = trace w @ ((e1 @ [Sleep (DELAY_MS cfg)]) @ e2)"
      unfolding run using e2(1) e1'(1) by (simp add: sleep_def trace_emit)
    moreover have "fail_fast ((e1 @ [Sleep (DELAY_MS cfg)]) @ e2)
        (\<not> isl (fst (delete_each cfg remote (p # ps) t w)))"
      unfolding run using fail_fast_append[OF g e2(2)] .
    ultimately show ?thesis by blast
  qed
qed

lemma fetchPipelines_fail_fast:
  "\<exists>evs. trace (snd (fetchPipelines cfg remote page w)) = trace w @ evs
     \<and> fail_fast evs (\<not> isl (fst (fetchPipelines cfg remote page w)))"
proof -
  let ?q = "pipelines_request cfg page"
  let ?a = "remote (issued w) ?q"
  have g: "meth ?q = GET" by (simp add: pipelines_request_def)
  show ?thesis
    using g
    by (cases ?a) (auto simp: fetchPipelines_def fetch_eq emit_def fail_fast_def split: option.splits)
qed

lemma fetch_and_delete_fail_fast:
  assumes "fetch_and_delete cfg remote page t w = Some y"
  shows "\<exists>evs. trace (snd y) = trace w @ evs \<and> fail_fast evs (\<not> isl (fst y))"
  using assms
proof (induction cfg remote page t w y rule: fetch_and_delete.raw_induct[rotated 1, consumes 1])
  case (1 f cfg remote page t w y)
  let ?w0 = "emit (Log (FetchingPipelinesPage page)) w"
  from fetchPipelines_fail_fast[of cfg remote page ?w0] obtain e1 where
    e1: "trace (snd (fetchPipelines cfg remote page ?w0)) = trace ?w0 @ e1"
      "fail_fast e1 (\<not> isl (fst (fetchPipelines cfg remote page ?w0)))" by blast
  obtain res w1 where fp: "fetchPipelines cfg remote page ?w0 = (res, w1)"
    by (cases "fetchPipelines cfg remote page ?w0")
  have t1: "trace w1 = trace w @ (Log (FetchingPipelinesPage page) # e1)"
    using e1(1) fp by (simp add: trace_emit)
  show ?case
  proof (cases res)
    case (Inl e)
    then have "y = (Inl e, w1)" using 1(2) fp by simp
    then show ?thesis using e1(2) fp Inl t1 by (auto simp: fail_fast_def)
  next
    case (Inr ps)
    have g1: "list_all good (calls (Log (FetchingPipelinesPage page) # e1))"
      using e1(2) fp Inr by (simp add: fail_fast_True)
    show ?thesis
    proof (cases "ps = []")
      case True
      then have "y = (Inr t, emit (Log NoMorePipelines) w1)" using 1(2) fp Inr by simp
      then show ?thesis
        using g1 t1
        by (auto simp: trace_emit fail_fast_True calls_append
            intro!: exI[of _ "(Log (FetchingPipelinesPage page) # e1) @ [Log NoMorePipelines]"])
    next
      case False
      let ?w2 = "emit (Log (FoundPipelines (length ps) page)) w1"
      from delete_each_fail_fast[of cfg remote ps t ?w2] obtain e2 where
        e2: "trace (snd (delete_each cfg remote ps t ?w2)) = trace ?w2 @ e2"
          "fail_fast e2 (\<not> isl (fst (delete_each cfg remote ps t ?w2)))" by blast
      obtain res2 w3 where de: "delete_each cfg remote ps t ?w2 = (res2, w3)"
        by (cases "delete_each cfg remote ps t ?w2")
      let ?e12 = "(Log (FetchingPipelinesPage page) # e1) @ [Log (FoundPipelines (length ps) page)]"
      have g12: "list_all good (calls ?e12)" using g1 by (simp add: calls_append)
      have t3: "trace w3 = trace w @ (?e12 @ e2)"
        using e2(1) de t1 by (simp add: trace_emit)
      show ?thesis
      proof (cases res2)
        case (Inl e)
        then have "y = (Inl e, w3)" using 1(2) fp Inr False de by simp
        moreover have "fail_fast (?e12 @ e2) False"
          using fail_fast_append[OF g12 e2(2)] de Inl by simp
        ultimately show ?thesis using t3 by auto
      next
        case (Inr n)
        then have rec: "f cfg remote (page + 1) n w3 = Some y"
          using 1(2) fp \<open>res = Inr ps\<close> False de by simp
        from 1(1)[OF rec] obtain e3 where
          e3: "trace (snd y) = trace w3 @ e3" "fail_fast e3 (\<not> isl (fst y))" by blast
        have g123: "list_all good (calls (?e12 @ e2))"
          using g12 e2(2) de Inr by (simp add: fail_fast_True calls_append)
        have "trace (snd y) = trace w @ ((?e12 @ e2) @ e3)" using e3(1) t3 by simp
        moreover have "fail_fast ((?e12 @ e2) @ e3) (\<not> isl (fst y))"
          using fail_fast_append[OF g123 e3(2)] .
        ultimately show ?thesis by blast
      qed
    qed
  qed
qed


lemma remove_pipelines_exit:
  assumes "remove_pipelines cfg remote = Some r"
  shows "exit_code r = (if list_all good (calls (events r)) then 0 else 1)"
proof -
  let ?w = "sleep 5000 (emit (Log PressCtrlC) (emit (Log (WarningDeleteAll (GITLAB_PROJECT_ID cfg))) (start :: pipeline world)))"
  let ?w0 = "emit (Log (RemovingAllPipelines (GITLAB_PROJECT_ID cfg))) ?w"
  have c0: "calls (trace ?w0) = []"
    by (simp add: sleep_def trace_emit start_def calls_append)
  from assms obtain y where y: "fetch_and_delete cfg remote 1 0 ?w0 = Some y"
    by (auto simp: remove_pipelines_def main_remove_pipelines_def split: option.splits)
  from fetch_and_delete_fail_fast[OF y] obtain evs where
    evs: "trace (snd y) = trace ?w0 @ evs" "fail_fast evs (\<not> isl (fst y))" by blast
  obtain res w1 where yy: "y = (res, w1)" by (cases y)
  show ?thesis
  proof (cases res)
    case (Inl e)
    then have "r = exit 1 (emit (Err (ErrorRemovingPipelines e)) w1)"
      using assms y yy by (simp add: remove_pipelines_def main_remove_pipelines_def)
    then show ?thesis
      using evs yy Inl c0 by (simp add: exit_def trace_emit calls_append fail_fast_def)
  next
    case (Inr n)
    then have "r = exit 0 (emit (Log (SuccessfullyDeletedPipelines n (GITLAB_PROJECT_ID cfg))) w1)"
      using assms y yy by (simp add: remove_pipelines_def main_remove_pipelines_def)
    then show ?thesis
      using evs yy Inr c0 by (simp add: exit_def trace_emit calls_append fail_fast_True)
  qed
qed

lemma removeAll_exit:
  assumes "removeAllEnvironmentVariables cfg remote = Some r"
  shows "exit_code r = (if list_all good (calls (events r)) then 0 else 1)"
proof -
  let ?w0 = "emit (Log (StartingRemoval (GITLAB_ENVIRONMENT cfg))) (start :: variable world)"
  have c0: "calls (trace ?w0) = []" by (simp add: trace_emit start_def)
  from assms obtain res w1 where l: "fetchEnvironmentVariables cfg remote ?w0 = Some (res, w1)"
    by (auto simp: removeAllEnvironmentVariables_def split: option.splits)
  from fetchEnvironmentVariables_fail_fast[OF l] obtain evs where
    evs: "trace w1 = trace ?w0 @ evs" "fail_fast evs (\<not> isl res)" by blast
  show ?thesis
  proof (cases res)
    case (Inl e)
    then have "r = exit 1 (emit (Err (FatalError e)) w1)"
      using assms l by (simp add: removeAllEnvironmentVariables_def)
    then show ?thesis
      using evs Inl c0 by (simp add: exit_def trace_emit calls_append fail_fast_def)
  next
    case (Inr vs)
    then have g: "list_all good (calls (trace w1))"
      using evs c0 by (simp add: calls_append fail_fast_True)
    show ?thesis
    proof (cases "vs = []")
      case True
      then have "r = exit 0 (emit (Log (NoVariablesFound (GITLAB_ENVIRONMENT cfg))) w1)"
        using assms l Inr by (simp add: removeAllEnvironmentVariables_def)
      then show ?thesis using g by (simp add: exit_def trace_emit calls_append)
    next
      case False
      let ?w2 = "emit (Log (PreparingToDelete (length vs))) w1"
      obtain rs w3 where d: "delete_all cfg remote vs ?w2 = (rs, w3)"
        by (cases "delete_all cfg remote vs ?w2")
      from delete_all_results[of cfg remote vs ?w2] obtain e2 where
        e2: "trace w3 = trace ?w2 @ e2" "length (filter rejected rs) = length (failures e2)"
        by (auto simp: d)
      have z: "(filter rejected rs = []) = list_all good (calls e2)"
      proof -
        have "(failures e2 = []) = list_all good (calls e2)"
          by (auto simp: failures_def list_all_iff filter_empty_conv)
        moreover have "(filter rejected rs = []) = (failures e2 = [])"
          using e2(2) by (metis length_0_conv)
        ultimately show ?thesis by simp
      qed
      obtain tail where r: "events r = trace w3 @ tail" "calls tail = []"
        "exit_code r = (if filter rejected rs = [] then 0 else 1)"
        using assms l Inr False d
        by (auto simp: removeAllEnvironmentVariables_def Let_def exit_def trace_emit calls_append
            split: if_splits)
      show ?thesis
        using r e2(1) g z by (simp add: trace_emit calls_append)
    qed
  qed
qed

lemma set_env_vars_exit:
  "exit_code (set_env_vars cfg file remote) = (if accepted file then 0 else 1)"
proof (cases "file")
  case (Text t)
  then show ?thesis
    by (cases t) (auto simp: set_env_vars_def main_set_env_vars_def exit_def case_prod_unfold)
qed (simp_all add: set_env_vars_def main_set_env_vars_def exit_def)


lemma fetchPipelines_Inr:
  "fetchPipelines cfg remote page w = (Inr ps, w1) \<Longrightarrow>
     lists (remote (issued w) (pipelines_request cfg page)) ps"
  by (cases "remote (issued w) (pipelines_request cfg page)")
     (auto simp: fetchPipelines_def fetch_eq split: if_splits option.splits)

lemma fetch_and_delete_ends:
  assumes "\<forall>n. \<not> more_pipelines (remote n (pipelines_request cfg p))" and "page \<le> p"
  shows "fetch_and_delete cfg remote page t w \<noteq> None"
  using assms(2)
proof (induction "p - page" arbitrary: page t w)
  case 0
  then have p: "page = p" by simp
  let ?w0 = "emit (Log (FetchingPipelinesPage page)) w"
  obtain res w1 where fp: "fetchPipelines cfg remote page ?w0 = (res, w1)"
    by (cases "fetchPipelines cfg remote page ?w0")
  show ?case
  proof (cases res)
    case (Inl e)
    then show ?thesis by (subst fetch_and_delete.simps) (simp add: fp)
  next
    case (Inr ps)
    have "\<not> more_pipelines (remote (issued ?w0) (pipelines_request cfg page))"
      using assms(1) p by simp
    with fetchPipelines_Inr[OF fp[unfolded Inr]] have "ps = []"
      by (cases "remote (issued ?w0) (pipelines_request cfg page)") auto
    then show ?thesis by (subst fetch_and_delete.simps) (simp add: fp Inr)
  qed
next
  case (Suc d)
  let ?w0 = "emit (Log (FetchingPipelinesPage page)) w"
  obtain res w1 where fp: "fetchPipelines cfg remote page ?w0 = (res, w1)"
    by (cases "fetchPipelines cfg remote page ?w0")
  show ?case
  proof (cases res)
    case (Inl e)
    then show ?thesis by (subst fetch_and_delete.simps) (simp add: fp)
  next
    case (Inr ps)
    let ?w2 = "emit (Log (FoundPipelines (length ps) page)) w1"
    obtain res2 w3 where de: "delete_each cfg remote ps t ?w2 = (res2, w3)"
      by (cases "delete_each cfg remote ps t ?w2")
    have d: "d = p - (page + 1)" "page + 1 \<le> p" using Suc(2) by simp_all
    show ?thesis
      using Suc(1)[OF d]
      by (subst fetch_and_delete.simps) (cases res2; simp add: fp Inr de)
  qed
qed

lemma fetch_pages_ends:
  assumes "\<forall>n. \<not> more_pages (remote n (variables_request cfg p)) p" and "page \<le> p"
  shows "fetch_pages cfg remote page acc w \<noteq> None"
  using assms(2)
proof (induction "p - page" arbitrary: page acc w)
  case 0
  then have p: "page = p" by simp
  let ?w0 = "emit (Log (FetchingPage page)) w"
  from assms(1) p have "\<not> more_pages (remote (issued ?w0) (variables_request cfg page)) page" by simp
  then show ?case
    by (subst fetch_pages.simps)
       (cases "remote (issued ?w0) (variables_request cfg page)";
        auto simp: fetch_eq split: option.splits)
next
  case (Suc d)
  let ?w0 = "emit (Log (FetchingPage page)) w"
  have d: "d = p - (page + 1)" "page + 1 \<le> p" using Suc(2) by simp_all
  show ?case
    using Suc(1)[OF d]
    by (subst fetch_pages.simps)
       (cases "remote (issued ?w0) (variables_request cfg page)";
        auto simp: fetch_eq split: option.splits)
qed

lemma remove_pipelines_ends:
  assumes "1 \<le> p" and "\<forall>n. \<not> more_pipelines (remote n (pipelines_request cfg p))"
  shows "remove_pipelines cfg remote \<noteq> None"
  using fetch_and_delete_ends[where remote = remote and cfg = cfg and p = p and page = 1,
      OF assms(2) assms(1)]
  by (auto simp: remove_pipelines_def main_remove_pipelines_def split: option.splits sum.splits)

lemma removeAll_ends:
  assumes "1 \<le> p" and "\<forall>n. \<not> more_pages (remote n (variables_request cfg p)) p"
  shows "removeAllEnvironmentVariables cfg remote \<noteq> None"
  using fetch_pages_ends[where remote = remote and cfg = cfg and p = p and page = 1,
      OF assms(2) assms(1)]
  by (auto simp: removeAllEnvironmentVariables_def fetchEnvironmentVariables_def Let_def
      split: option.splits sum.splits prod.splits)

text \<open>
  C2, as the code has it. A run of \<open>remove-pipelines\<close> or of \<open>remove-env-vars\<close> that ends
  exits with status 0 when every call of the run went well, and with status 1 otherwise:
  when a deletion failed or a list call failed. Such a run does end when, for some page,
  the remote never answers the list request for it with a page that keeps the loop going.
  \<open>set-env-vars\<close> exits with status 0 when the document passes the test of \<open>main\<close> and
  with status 1 otherwise, whatever the answers to its calls are.
\<close>

theorem exit_status_of_each_script:
  "(remove_pipelines cfg premote = Some pr \<longrightarrow>
      exit_code pr = (if list_all good (calls (events pr)) then 0 else 1))
   \<and> (removeAllEnvironmentVariables cfg vremote = Some vr \<longrightarrow>
      exit_code vr = (if list_all good (calls (events vr)) then 0 else 1))
   \<and> exit_code (set_env_vars cfg doc sremote) = (if accepted doc then 0 else 1)
   \<and> (1 \<le> p \<and> (\<forall>n. \<not> more_pipelines (premote n (pipelines_request cfg p))) \<longrightarrow>
      remove_pipelines cfg premote \<noteq> None)
   \<and> (1 \<le> p \<and> (\<forall>n. \<not> more_pages (vremote n (variables_request cfg p)) p) \<longrightarrow>
      removeAllEnvironmentVariables cfg vremote \<noteq> None)"
  using remove_pipelines_exit[of cfg premote pr] removeAll_exit[of cfg vremote vr]
    set_env_vars_exit[of cfg doc sremote]
    remove_pipelines_ends[of p premote cfg] removeAll_ends[of p vremote cfg]
  by blast

lemma runs_of_the_examples:
  "map_option (\<lambda>r. list_all good (calls (events r))) (remove_pipelines cfg0 remote22) = Some False"
  "map_option (\<lambda>r. list_all good (calls (events r))) (removeAllEnvironmentVariables cfg0 remote_vars)
     = Some False"
  by code_simp+

theorem exit_status_witness:
  "(\<exists>r. remove_pipelines cfg0 remote22 = Some r \<and> exit_code r = 1)
   \<and> (\<exists>r. removeAllEnvironmentVariables cfg0 remote_vars = Some r \<and> exit_code r = 1)
   \<and> exit_code (set_env_vars cfg0 (Text (Some (JObj []))) remote_B) = 0
   \<and> remove_pipelines cfg0 remote22 \<noteq> None
   \<and> removeAllEnvironmentVariables cfg0 remote_vars \<noteq> None"
proof -
  from runs_of_the_examples(1) obtain pr where
    pr: "remove_pipelines cfg0 remote22 = Some pr" "\<not> list_all good (calls (events pr))"
    by (cases "remove_pipelines cfg0 remote22") auto
  from runs_of_the_examples(2) obtain vr where
    vr: "removeAllEnvironmentVariables cfg0 remote_vars = Some vr" "\<not> list_all good (calls (events vr))"
    by (cases "removeAllEnvironmentVariables cfg0 remote_vars") auto
  note t = exit_status_of_each_script[where cfg = cfg0 and premote = remote22 and pr = pr
      and vremote = remote_vars and vr = vr and doc = "Text (Some (JObj []))"
      and sremote = remote_B and p = 3]
  have g: "meth (pipelines_request cfg0 k) = GET" "meth (variables_request cfg0 k) = GET" for k
    by (simp_all add: pipelines_request_def variables_request_def)
  have three: "show_nat 3 = ''3''" "show_nat 2 = ''2''" "show_nat (Suc 0) = ''1''" by code_simp+
  have ne: "pipelines_request cfg0 3 \<noteq> pipeline_request cfg0 22"
    "pipelines_request cfg0 3 \<noteq> pipelines_request cfg0 (Suc 0)"
    "pipelines_request cfg0 3 \<noteq> pipelines_request cfg0 2"
    "variables_request cfg0 3 \<noteq> variables_request cfg0 (Suc 0)"
    "variables_request cfg0 3 \<noteq> variables_request cfg0 2"
    by (simp_all add: pipelines_request_def pipeline_request_def variables_request_def three)
  have h1: "1 \<le> (3::nat) \<and> (\<forall>n. \<not> more_pipelines (remote22 n (pipelines_request cfg0 3)))"
    by (simp add: remote22_def remote25_def ne g page_of_def)
  have h2: "1 \<le> (3::nat) \<and> (\<forall>n. \<not> more_pages (remote_vars n (variables_request cfg0 3)) 3)"
    by (simp add: remote_vars_def ne g answer_def ok_def)
  from t pr vr h1 h2 show ?thesis by (simp add: accepted.simps)
qed

text \<open>
  C2 as stated fails for \<open>set-env-vars\<close>: with the keys A and B and the update of B
  answered with 500, the key B is reported as not set and the exit status is 0.
\<close>

theorem set_env_vars_exits_zero_after_a_failure:
  "exit_code (set_env_vars cfg0 (Text (Some (JObj [(''A'', JStr ''1''), (''B'', JStr ''2'')]))) remote_B) = 0
   \<and> failed_to_set (events (set_env_vars cfg0 (Text (Some (JObj [(''A'', JStr ''1''), (''B'', JStr ''2'')]))) remote_B))
       = [''B'']
   \<and> failures (events (set_env_vars cfg0 (Text (Some (JObj [(''A'', JStr ''1''), (''B'', JStr ''2'')]))) remote_B))
       = [(update_request cfg0 ''B'' ''2'', answer 500)]"
  by code_simp

section \<open>A page fetch that fails\<close>

lemma fetch_pages_not_ok:
  assumes "remote (issued w) (variables_request cfg page) = Response r" and "\<not> ok r"
  shows "fetch_pages cfg remote page acc w =
     Some (Inl (Failed ToFetch (status r)),
           \<lparr>issued = Suc (issued w),
            trace = trace w @ [Log (FetchingPage page), Call (variables_request cfg page) (Response r)]\<rparr>)"
  by (subst fetch_pages.simps) (simp add: fetch_eq issued_emit trace_emit assms)

lemma fetchPipelines_not_ok:
  assumes "remote (issued w) (pipelines_request cfg page) = Response r" and "\<not> ok r"
  shows "fetchPipelines cfg remote page w =
     (Inl (if json r = None then SyntaxError else Failed ToFetch (status r)),
      \<lparr>issued = Suc (issued w),
       trace = trace w @ [Call (pipelines_request cfg page) (Response r),
          Err (ErrorFetchingPipelines (if json r = None then SyntaxError else Failed ToFetch (status r)))]\<rparr>)"
  using assms by (cases "json r") (simp_all add: fetchPipelines_def fetch_eq emit_def)

lemma failing_list_ends:
  assumes "remote (issued w) (pipelines_request cfg page) = Response r" and "\<not> ok r"
  shows "\<exists>e w'. fetch_and_delete cfg remote page t w = Some (Inl e, w')
     \<and> steps (trace w') = steps (trace w) @ [Request (pipelines_request cfg page)]"
proof -
  let ?w0 = "emit (Log (FetchingPipelinesPage page)) w"
  have a: "remote (issued ?w0) (pipelines_request cfg page) = Response r"
    using assms(1) by (simp add: issued_emit)
  show ?thesis
    by (subst fetch_and_delete.simps)
       (simp add: fetchPipelines_not_ok[where remote = remote and w = ?w0, OF a assms(2)]
          trace_emit steps_append)
qed

lemma remove_pipelines_fail_fast:
  assumes "remove_pipelines cfg remote = Some r"
  shows "list_all good (butlast (calls (events r)))"
proof -
  let ?w = "sleep 5000 (emit (Log PressCtrlC) (emit (Log (WarningDeleteAll (GITLAB_PROJECT_ID cfg))) (start :: pipeline world)))"
  let ?w0 = "emit (Log (RemovingAllPipelines (GITLAB_PROJECT_ID cfg))) ?w"
  have c0: "calls (trace ?w0) = []"
    by (simp add: sleep_def trace_emit start_def calls_append)
  from assms obtain y where y: "fetch_and_delete cfg remote 1 0 ?w0 = Some y"
    by (auto simp: remove_pipelines_def main_remove_pipelines_def split: option.splits)
  from fetch_and_delete_fail_fast[OF y] obtain evs where
    evs: "trace (snd y) = trace ?w0 @ evs" "fail_fast evs (\<not> isl (fst y))" by blast
  obtain res w1 where yy: "y = (res, w1)" by (cases y)
  show ?thesis
  proof (cases res)
    case (Inl e)
    then have "r = exit 1 (emit (Err (ErrorRemovingPipelines e)) w1)"
      using assms y yy by (simp add: remove_pipelines_def main_remove_pipelines_def)
    then show ?thesis
      using evs yy Inl c0 by (simp add: exit_def trace_emit calls_append fail_fast_def)
  next
    case (Inr n)
    then have "r = exit 0 (emit (Log (SuccessfullyDeletedPipelines n (GITLAB_PROJECT_ID cfg))) w1)"
      using assms y yy by (simp add: remove_pipelines_def main_remove_pipelines_def)
    then show ?thesis
      using evs yy Inr c0 by (simp add: exit_def trace_emit calls_append fail_fast_def)
  qed
qed

lemma bad_call_is_last:
  assumes "list_all good (butlast cs)" and "c \<in> set cs" and "\<not> good c"
  shows "last cs = c"
proof (cases cs rule: rev_cases)
  case Nil
  with assms(2) show ?thesis by simp
next
  case (snoc xs l)
  with assms show ?thesis by (auto simp: list_all_iff)
qed

text \<open>
  C7, as the code has it. A page fetch that is answered with a response that is not ok ends
  the listing there. In \<open>fetchEnvironmentVariables\<close> the loop returns the error with the
  status of that response whatever it had accumulated, and sends nothing more; so whenever
  the listing has ended and one of its fetches was answered so, its result is that error,
  not a list, and that fetch was its last call. \<open>fetchPipelines\<close> fails on such an answer
  too, with the error made from that response when its body is JSON. In \<open>remove-pipelines\<close> the
  pages are not accumulated: each page is deleted before the next is listed. When the
  pages \<open>pgs\<close> have been listed and deleted and the fetch of the next page is answered so,
  the run has deleted the pipelines of \<open>pgs\<close>, the failed fetch is its last step and the
  exit status is 1; and in every run that ends, a call answered so is the last call.
\<close>

theorem failed_page_fetch_fails_the_listing:
  "(fetchEnvironmentVariables cfg remote w = Some (res, w') \<and> \<not> ok r \<longrightarrow>
      (\<exists>evs. trace w' = trace w @ evs
         \<and> ((q, Response r) \<in> set (calls evs) \<longrightarrow>
              res = Inl (Failed ToFetch (status r)) \<and> last (calls evs) = (q, Response r))))
   \<and> (remote (issued w) (variables_request cfg page) = Response r \<and> \<not> ok r \<longrightarrow>
      (\<exists>w1. fetch_pages cfg remote page acc w = Some (Inl (Failed ToFetch (status r)), w1)
         \<and> calls (trace w1) = calls (trace w) @ [(variables_request cfg page, Response r)]))
   \<and> (premote (issued pw) (pipelines_request cfg page) = Response pr \<and> \<not> ok pr \<longrightarrow>
      (\<exists>e w1. fetchPipelines cfg premote page pw = (Inl e, w1)
         \<and> (json pr \<noteq> None \<longrightarrow> e = Failed ToFetch (status pr))
         \<and> calls (trace w1) = calls (trace pw) @ [(pipelines_request cfg page, Response pr)]))
   \<and> (serves cfg premote 1 pgs
        \<and> (\<forall>n. \<forall>p \<in> set (concat pgs). answered_ok (premote n (pipeline_request cfg (id p))))
        \<and> (\<forall>n. premote n (pipelines_request cfg (Suc (length pgs))) = Response pr) \<and> \<not> ok pr \<longrightarrow>
      (\<exists>run. main_remove_pipelines cfg premote pw = Some run \<and> exit_code run = 1
         \<and> steps (events run) =
             steps (trace pw) @ pages_steps cfg 1 pgs
               @ [Request (pipelines_request cfg (Suc (length pgs)))]))
   \<and> (remove_pipelines cfg premote = Some prun \<and> (pq, Response pr) \<in> set (calls (events prun))
        \<and> \<not> ok pr \<longrightarrow>
      exit_code prun = 1 \<and> last (calls (events prun)) = (pq, Response pr))"
proof (intro conjI impI)
  assume "fetchEnvironmentVariables cfg remote w = Some (res, w') \<and> \<not> ok r"
  then have run: "fetchEnvironmentVariables cfg remote w = Some (res, w')" and nok: "\<not> ok r"
    by simp_all
  from fetchEnvironmentVariables_fail_fast[OF run] obtain evs where
    evs: "trace w' = trace w @ evs" "fail_fast evs (\<not> isl res)"
      "isl res \<longrightarrow> projl res = cause (snd (last (calls evs)))" by blast
  have "res = Inl (Failed ToFetch (status r)) \<and> last (calls evs) = (q, Response r)"
    if "(q, Response r) \<in> set (calls evs)"
  proof -
    have "\<not> good (q, Response r)" using nok by simp
    from fail_fast_bad_call[OF evs(2) that this] evs(3) show ?thesis
      using nok by (cases res) simp_all
  qed
  with evs(1) show "\<exists>evs. trace w' = trace w @ evs
      \<and> ((q, Response r) \<in> set (calls evs) \<longrightarrow>
           res = Inl (Failed ToFetch (status r)) \<and> last (calls evs) = (q, Response r))"
    by blast
next
  assume "remote (issued w) (variables_request cfg page) = Response r \<and> \<not> ok r"
  then have a: "remote (issued w) (variables_request cfg page) = Response r" and nok: "\<not> ok r"
    by simp_all
  from fetch_pages_not_ok[where remote = remote and w = w, OF a nok, of acc]
  show "\<exists>w1. fetch_pages cfg remote page acc w = Some (Inl (Failed ToFetch (status r)), w1)
      \<and> calls (trace w1) = calls (trace w) @ [(variables_request cfg page, Response r)]"
    by (simp add: calls_append)
next
  assume "premote (issued pw) (pipelines_request cfg page) = Response pr \<and> \<not> ok pr"
  then have a: "premote (issued pw) (pipelines_request cfg page) = Response pr" and nok: "\<not> ok pr"
    by simp_all
  from fetchPipelines_not_ok[where remote = premote and w = pw, OF a nok]
  show "\<exists>e w1. fetchPipelines cfg premote page pw = (Inl e, w1)
      \<and> (json pr \<noteq> None \<longrightarrow> e = Failed ToFetch (status pr))
      \<and> calls (trace w1) = calls (trace pw) @ [(pipelines_request cfg page, Response pr)]"
    by (simp add: calls_append)
next
  assume h: "serves cfg premote 1 pgs
        \<and> (\<forall>n. \<forall>p \<in> set (concat pgs). answered_ok (premote n (pipeline_request cfg (id p))))
        \<and> (\<forall>n. premote n (pipelines_request cfg (Suc (length pgs))) = Response pr) \<and> \<not> ok pr"
  then have s: "serves cfg premote 1 pgs"
    and d: "\<forall>n. \<forall>p \<in> set (concat pgs). answered_ok (premote n (pipeline_request cfg (id p)))"
    and nok: "\<not> ok pr" by simp_all
  let ?w0 = "emit (Log (RemovingAllPipelines (GITLAB_PROJECT_ID cfg))) pw"
  from pages_prefix[OF s d, of 0 ?w0] obtain w1 where
    w1: "fetch_and_delete cfg premote 1 0 ?w0 =
           fetch_and_delete cfg premote (Suc (length pgs)) (length (concat pgs)) w1"
      "steps (trace w1) = steps (trace ?w0) @ pages_steps cfg 1 pgs" by auto
  from h have a: "premote (issued w1) (pipelines_request cfg (Suc (length pgs))) = Response pr"
    by simp
  from failing_list_ends[where remote = premote and w = w1, OF a nok, of "length (concat pgs)"]
  obtain e w2 where
    w2: "fetch_and_delete cfg premote (Suc (length pgs)) (length (concat pgs)) w1 = Some (Inl e, w2)"
      "steps (trace w2) = steps (trace w1) @ [Request (pipelines_request cfg (Suc (length pgs)))]"
    by blast
  show "\<exists>run. main_remove_pipelines cfg premote pw = Some run \<and> exit_code run = 1
         \<and> steps (events run) =
             steps (trace pw) @ pages_steps cfg 1 pgs
               @ [Request (pipelines_request cfg (Suc (length pgs)))]"
    using main_remove_pipelines_Inl[of cfg premote pw e w2] w1 w2
    by (simp add: exit_def trace_emit steps_append)
next
  assume h: "remove_pipelines cfg premote = Some prun \<and> (pq, Response pr) \<in> set (calls (events prun))
        \<and> \<not> ok pr"
  then have bad: "\<not> good (pq, Response pr)" by simp
  have "\<not> list_all good (calls (events prun))" unfolding list_all_iff using bad h by blast
  with h remove_pipelines_exit[of cfg premote prun] show "exit_code prun = 1" by simp
next
  assume h: "remove_pipelines cfg premote = Some prun \<and> (pq, Response pr) \<in> set (calls (events prun))
        \<and> \<not> ok pr"
  then have bad: "\<not> good (pq, Response pr)" by simp
  from h remove_pipelines_fail_fast[of cfg premote prun]
  have "list_all good (butlast (calls (events prun)))" by simp
  from bad_call_is_last[OF this _ bad] h
  show "last (calls (events prun)) = (pq, Response pr)" by simp
qed

lemma broken_listing:
  "fetchEnvironmentVariables cfg0 remote_broken start =
     Some (Inl (Failed ToFetch 503),
           \<lparr>issued = 2,
            trace = [Log (FetchingVariables ''production''),
                     Log (FetchingPage 1),
                     Call (variables_request cfg0 1) (paged 2 [var ''A'', var ''B'']),
                     Log (FetchingPage 2),
                     Call (variables_request cfg0 2) (answer 503),
                     Err (ErrorFetchingVariables (Failed ToFetch 503))]\<rparr>)"
  by code_simp

lemma outage_run:
  "map_option (\<lambda>r. calls (events r)) (remove_pipelines cfg0 remote_outage) =
     Some [(pipelines_request cfg0 1, page_of (numbered [1, 2])),
           (pipeline_request cfg0 1, answer 204), (pipeline_request cfg0 2, answer 204),
           (pipelines_request cfg0 2, answer 503)]"
  by code_simp

theorem failed_page_fetch_witness:
  "(\<exists>w'. fetchEnvironmentVariables cfg0 remote_broken start = Some (Inl (Failed ToFetch 503), w')
        \<and> last (calls (trace w')) = (variables_request cfg0 2, answer 503))
   \<and> (\<exists>w1. fetch_pages cfg0 remote_broken 2 [var ''A'', var ''B''] start =
               Some (Inl (Failed ToFetch 503), w1)
        \<and> calls (trace w1) = [(variables_request cfg0 2, answer 503)])
   \<and> (\<exists>w1. fetchPipelines cfg0 remote_outage 2 start = (Inl (Failed ToFetch 503), w1)
        \<and> calls (trace w1) = [(pipelines_request cfg0 2, answer 503)])
   \<and> (\<exists>run. main_remove_pipelines cfg0 remote_outage start = Some run \<and> exit_code run = 1
        \<and> steps (events run) =
            [Request (pipelines_request cfg0 1),
             Request (pipeline_request cfg0 1), Pause (DELAY_MS cfg0),
             Request (pipeline_request cfg0 2), Pause (DELAY_MS cfg0),
             Request (pipelines_request cfg0 2)])
   \<and> (\<exists>run. remove_pipelines cfg0 remote_outage = Some run \<and> exit_code run = 1
        \<and> last (calls (events run)) = (pipelines_request cfg0 2, answer 503))"
proof -
  let ?r = "\<lparr>status = 503, x_total_pages = None, json = Some []\<rparr> :: variable response"
  let ?p = "\<lparr>status = 503, x_total_pages = None, json = Some []\<rparr> :: pipeline response"
  have nok: "\<not> ok ?r" "\<not> ok ?p" by (simp_all add: ok_def)
  have a: "remote_broken (issued start) (variables_request cfg0 2) = Response ?r"
    by (simp add: remote_broken_def answer_def)
  have g: "meth (pipelines_request cfg0 k) = GET" "meth (pipeline_request cfg0 k) = DELETE" for k
    by (simp_all add: pipelines_request_def pipeline_request_def)
  have ne: "pipelines_request cfg0 2 \<noteq> pipelines_request cfg0 (Suc 0)"
    by (simp add: pipelines_request_def show_nat.simps digit_char_def)
  have b: "remote_outage n (pipelines_request cfg0 2) = Response ?p" for n
    using ne by (simp add: remote_outage_def g answer_def)
  obtain run where run: "remove_pipelines cfg0 remote_outage = Some run"
    "calls (events run) = [(pipelines_request cfg0 1, page_of (numbered [1, 2])),
           (pipeline_request cfg0 1, answer 204), (pipeline_request cfg0 2, answer 204),
           (pipelines_request cfg0 2, answer 503)]"
    using outage_run by (cases "remove_pipelines cfg0 remote_outage") auto
  note t = failed_page_fetch_fails_the_listing[where cfg = cfg0 and remote = remote_broken
      and w = start and res = "Inl (Failed ToFetch 503)" and r = ?r
      and q = "variables_request cfg0 2" and page = 2 and acc = "[var ''A'', var ''B'']"
      and premote = remote_outage and pw = start and pr = ?p
      and pgs = "[numbered [1, 2]]" and prun = run and pq = "pipelines_request cfg0 2"]
  note t1 = t[THEN conjunct1] and t2 = t[THEN conjunct2, THEN conjunct1]
    and t3 = t[THEN conjunct2, THEN conjunct2, THEN conjunct1]
    and t4 = t[THEN conjunct2, THEN conjunct2, THEN conjunct2, THEN conjunct1]
    and t5 = t[THEN conjunct2, THEN conjunct2, THEN conjunct2, THEN conjunct2]
  from t1 broken_listing nok have 1:
    "\<exists>w'. fetchEnvironmentVariables cfg0 remote_broken start = Some (Inl (Failed ToFetch 503), w')
        \<and> last (calls (trace w')) = (variables_request cfg0 2, answer 503)"
    by (simp add: answer_def paged_def)
  from t2 a nok have 2: "\<exists>w1. fetch_pages cfg0 remote_broken 2 [var ''A'', var ''B''] start =
               Some (Inl (Failed ToFetch 503), w1)
        \<and> calls (trace w1) = [(variables_request cfg0 2, answer 503)]"
    by (simp add: answer_def start_def)
  from t3 b[of "issued start"] nok have 3:
    "\<exists>w1. fetchPipelines cfg0 remote_outage 2 start = (Inl (Failed ToFetch 503), w1)
        \<and> calls (trace w1) = [(pipelines_request cfg0 2, answer 503)]"
    by (simp add: answer_def start_def)
  have h4: "serves cfg0 remote_outage 1 [numbered [1, 2]]
        \<and> (\<forall>n. \<forall>p \<in> set (concat [numbered [1, 2]]). answered_ok (remote_outage n (pipeline_request cfg0 (id p))))
        \<and> (\<forall>n. remote_outage n (pipelines_request cfg0 (Suc (length [numbered [1, 2]]))) = Response ?p)
        \<and> \<not> ok ?p"
    using b nok(2)
    by (simp add: remote_outage_def g page_of_def answer_def ok_def numbered_def numeral_2_eq_2)
  from t4[rule_format, OF h4] have 4:
    "\<exists>run. main_remove_pipelines cfg0 remote_outage start = Some run \<and> exit_code run = 1
        \<and> steps (events run) =
            [Request (pipelines_request cfg0 1),
             Request (pipeline_request cfg0 1), Pause (DELAY_MS cfg0),
             Request (pipeline_request cfg0 2), Pause (DELAY_MS cfg0),
             Request (pipelines_request cfg0 2)]"
    by (simp add: start_def delete_steps_def numbered_def numeral_2_eq_2)
  have h5: "remove_pipelines cfg0 remote_outage = Some run
        \<and> (pipelines_request cfg0 2, Response ?p) \<in> set (calls (events run)) \<and> \<not> ok ?p"
    using run nok(2) by (simp add: answer_def)
  from t5[rule_format, OF h5] run(1) have 5:
    "\<exists>run. remove_pipelines cfg0 remote_outage = Some run \<and> exit_code run = 1
        \<and> last (calls (events run)) = (pipelines_request cfg0 2, answer 503)"
    by (simp add: answer_def)
  from 1 2 3 4 5 show ?thesis by blast
qed

text \<open>
  C7 as stated fails for \<open>remove-pipelines\<close>, which hands every page to the deletion loop
  as soon as it is listed: with the pipelines 1 and 2 on page 1 and the fetch of page 2
  answered with 503, the run has deleted both before the listing fails. And the cause is
  not what \<open>fetchPipelines\<close> throws when the body of the failed answer is not JSON: for a
  502 with such a body it throws the syntax error of \<open>response.json()\<close>.
\<close>

theorem listed_page_is_deleted_before_the_next_fetch_fails:
  "map_option (\<lambda>r. (exit_code r, steps (events r))) (main_remove_pipelines cfg0 remote_outage start)
     = Some (1, [Request (pipelines_request cfg0 1),
                 Request (pipeline_request cfg0 1), Pause 1000,
                 Request (pipeline_request cfg0 2), Pause 1000,
                 Request (pipelines_request cfg0 2)])
   \<and> fst (fetchPipelines cfg0 (bad_gateway :: pipeline remote) 1 start) = Inl SyntaxError"
  by code_simp

end
